theory Spec2Isabelle
  imports Complex_Main "HOL-Library.Word"
begin

section \<open>Files, blobs and decoded images\<close>

text \<open>
  The editor (\<^verbatim>\<open>src/app/components/ImageEditor.tsx\<close>) and the API route
  (\<^verbatim>\<open>src/unnamed/part_000\<close>) handle browser \<^verbatim>\<open>File\<close> and \<^verbatim>\<open>Blob\<close> objects. A file
  is modelled by the attributes the code reads (\<^verbatim>\<open>size\<close>, \<^verbatim>\<open>name\<close>, \<^verbatim>\<open>type\<close>) and by its
  content. Content is either an uninterpreted byte sequence, named by a number, or the
  lossless PNG encoding of a bitmap, which is determined by that bitmap. The
  \<^verbatim>\<open>lastModified\<close> stamp that \<^verbatim>\<open>new File\<close> receives from \<^verbatim>\<open>Date.now()\<close> is read nowhere
  and is left out.
\<close>

type_synonym byte = "8 word"
type_synonym rgba = "byte \<times> byte \<times> byte \<times> byte"

datatype content = Bytes nat | Png nat nat "rgba list"

record Blob =
  bsize :: nat
  btype :: string
  bcontent :: content

record File =
  fsize :: nat
  fname :: string
  ftype :: string
  fcontent :: content

text \<open>\<^verbatim>\<open>new File([blob], name, { type })\<close>\<close>

definition newFile :: "Blob \<Rightarrow> string \<Rightarrow> string \<Rightarrow> File" where
  "newFile blob name ty =
     \<lparr>fsize = bsize blob, fname = name, ftype = ty, fcontent = bcontent blob\<rparr>"

text \<open>A decoded \<^verbatim>\<open>HTMLImageElement\<close>: its intrinsic size and its pixels, row by row.\<close>

record Image =
  iwidth :: nat
  iheight :: nat
  ipixels :: "rgba list"

text \<open>
  JavaScript strings entered by the user are sequences of UTF-16 code units. Message
  texts that the program builds from literals are plain strings.
\<close>

type_synonym jsstring = "16 word list"

text \<open>
  The multipart form that \<^verbatim>\<open>handleSubmit\<close> posts to \<^verbatim>\<open>/api/edit-image\<close>, and what
  \<^verbatim>\<open>fetch\<close> gives back: a rejection with its message, or a response with its status and
  either the parsed JSON body or the message with which \<^verbatim>\<open>response.json()\<close> throws.
\<close>

record EditRequest =
  reqImage :: File
  reqMask :: Blob
  reqPrompt :: jsstring

record ApiResponse =
  success :: bool
  editedImageUrl :: "string option"
  apiError :: "string option"

datatype FetchResult = Rejected string | Responded nat "string + ApiResponse"

text \<open>
  What the browser decides and the source does not: whether a file decodes to an image
  (\<^verbatim>\<open>img.onload\<close> against \<^verbatim>\<open>img.onerror\<close>), whether a canvas made by
  \<^verbatim>\<open>document.createElement\<close> hands out a 2D context, the blob that
  \<^verbatim>\<open>canvas.toBlob(cb, 'image/jpeg', quality)\<close> delivers after the image has been drawn
  at \<^verbatim>\<open>width\<close> by \<^verbatim>\<open>height\<close> (\<^verbatim>\<open>None\<close> is the \<^verbatim>\<open>null\<close> blob), whether the
  \<^verbatim>\<open>FileReader\<close> succeeds, the byte size of a PNG encoding, the coverage
  (0 to 255) with which the rasteriser touches pixel \<^verbatim>\<open>p\<close> of a \<^verbatim>\<open>w\<close> by \<^verbatim>\<open>h\<close> bitmap
  when it fills the full circle \<^verbatim>\<open>arc(x, y, r, 0, 2 * Math.PI)\<close>, and the outcome of
  \<^verbatim>\<open>fetch\<close>.
\<close>

record Browser =
  decode :: "File \<Rightarrow> Image option"
  newCanvasCtx :: bool
  toBlobJpeg :: "Image \<Rightarrow> rat \<Rightarrow> rat \<Rightarrow> rat \<Rightarrow> Blob option"
  readAsDataURL :: "File \<Rightarrow> bool"
  pngSize :: "nat \<Rightarrow> nat \<Rightarrow> rgba list \<Rightarrow> nat"
  arcCoverage :: "rat \<Rightarrow> rat \<Rightarrow> rat \<Rightarrow> nat \<Rightarrow> nat \<Rightarrow> nat \<Rightarrow> byte"
  fetch :: "EditRequest \<Rightarrow> FetchResult"

section \<open>The compressor\<close>

text \<open>
  Lines 51 to 63 of \<^verbatim>\<open>compressWithSettings\<close>: the size at which the image is drawn.
  JavaScript numbers are modelled by rationals; the divisor is positive on both
  branches that divide.
\<close>

definition scaleDims :: "Image \<Rightarrow> int \<Rightarrow> rat \<times> rat" where
  "scaleDims img targetDimension =
     (let width = (of_nat (iwidth img) :: rat); height = (of_nat (iheight img) :: rat) in
      if width > height then
        (if width > of_int targetDimension
         then (of_int targetDimension, (height * of_int targetDimension) / width)
         else (width, height))
      else
        (if height > of_int targetDimension
         then ((width * of_int targetDimension) / height, of_int targetDimension)
         else (width, height)))"

text \<open>
  \<^verbatim>\<open>compressWithSettings\<close> (lines 49 to 104). The result is the file with which the
  promise is resolved, together with the list of settings
  \<^verbatim>\<open>(targetQuality, targetDimension)\<close> of the successive calls, first call first.
  The quality is an exact rational where the source has a double. The dimension is a
  whole number in both, and the recursion descends on it.
\<close>

function compressWithSettings ::
  "Browser \<Rightarrow> File \<Rightarrow> nat \<Rightarrow> Image \<Rightarrow> rat \<Rightarrow> int \<Rightarrow> File \<times> (rat \<times> int) list" where
  "compressWithSettings env file maxSizeKB img targetQuality targetDimension =
     (if newCanvasCtx env then
        (case toBlobJpeg env img (fst (scaleDims img targetDimension))
                (snd (scaleDims img targetDimension)) targetQuality of
           Some blob \<Rightarrow>
             if fsize (newFile blob (fname file) ''image/jpeg'') > maxSizeKB * 1024 then
               if targetQuality > 1 / 10 \<and> targetDimension > 400 then
                 apsnd ((#) (targetQuality, targetDimension))
                   (compressWithSettings env file maxSizeKB img
                      (max (1 / 10) (targetQuality - 2 / 10))
                      (max 400 (targetDimension - 200)))
               else (newFile blob (fname file) ''image/jpeg'',
                     [(targetQuality, targetDimension)])
             else (newFile blob (fname file) ''image/jpeg'',
                   [(targetQuality, targetDimension)])
         | None \<Rightarrow> (file, [(targetQuality, targetDimension)]))
      else (file, [(targetQuality, targetDimension)]))"
  by pat_completeness auto
termination
  by (relation "measure (\<lambda>(env, file, maxSizeKB, img, q, d). nat (d - 400))") auto

declare compressWithSettings.simps [simp del]

text \<open>
  \<^verbatim>\<open>compressImage\<close> (lines 33 to 115). The promise has no reject path: every branch
  resolves with a file. The second component is the list of calls of
  \<^verbatim>\<open>compressWithSettings\<close>, empty when the file is passed through or does not decode.
\<close>

definition compressImage :: "Browser \<Rightarrow> File \<Rightarrow> nat \<Rightarrow> File \<times> (rat \<times> int) list" where
  "compressImage env file maxSizeKB =
     (if fsize file \<le> maxSizeKB * 1024 then (file, [])
      else
        (case decode env file of
           Some img \<Rightarrow>
             compressWithSettings env file maxSizeKB img
               (if fsize file > 10 * 1024 * 1024 then 3 / 10 else 7 / 10)
               (if fsize file > 10 * 1024 * 1024 then 800 else 1200)
         | None \<Rightarrow> (file, [])))"

section \<open>Canvases and image data\<close>

text \<open>
  A canvas is its size, its bitmap (one RGBA pixel per position, row by row) and whether
  \<^verbatim>\<open>getContext('2d')\<close> returns a context for it. \<^verbatim>\<open>ImageData\<close> is the flat
  \<^verbatim>\<open>Uint8ClampedArray\<close> with four bytes per pixel.
\<close>

record Canvas =
  cwidth :: nat
  cheight :: nat
  bitmap :: "rgba list"
  ctx2d :: bool

record ImageData =
  dwidth :: nat
  dheight :: nat
  data :: "byte list"

definition wellFormed :: "Canvas \<Rightarrow> bool" where
  "wellFormed c = (length (bitmap c) = cwidth c * cheight c)"

definition transparent :: rgba where
  "transparent = (0, 0, 0, 0)"

definition black :: rgba where
  "black = (0, 0, 0, 255)"

definition white :: rgba where
  "white = (255, 255, 255, 255)"

text \<open>A new canvas element is 300 by 150 and transparent black.\<close>

definition createCanvas :: "bool \<Rightarrow> Canvas" where
  "createCanvas ok =
     \<lparr>cwidth = 300, cheight = 150, bitmap = replicate (300 * 150) transparent, ctx2d = ok\<rparr>"

text \<open>Assigning \<^verbatim>\<open>canvas.width\<close> or \<^verbatim>\<open>canvas.height\<close> clears the bitmap.\<close>

definition setWidth :: "nat \<Rightarrow> Canvas \<Rightarrow> Canvas" where
  "setWidth w c = c\<lparr>cwidth := w, bitmap := replicate (w * cheight c) transparent\<rparr>"

definition setHeight :: "nat \<Rightarrow> Canvas \<Rightarrow> Canvas" where
  "setHeight h c = c\<lparr>cheight := h, bitmap := replicate (cwidth c * h) transparent\<rparr>"

fun flatten :: "rgba list \<Rightarrow> byte list" where
  "flatten [] = []"
| "flatten ((r, g, b, a) # ps) = r # g # b # a # flatten ps"

text \<open>
  \<^verbatim>\<open>ctx.getImageData(0, 0, canvas.width, canvas.height)\<close>, the only form the source
  uses. A zero width or height raises \<^verbatim>\<open>IndexSizeError\<close>: \<^verbatim>\<open>None\<close>.
\<close>

definition getImageData :: "Canvas \<Rightarrow> ImageData option" where
  "getImageData c =
     (if cwidth c = 0 \<or> cheight c = 0 then None
      else Some \<lparr>dwidth = cwidth c, dheight = cheight c, data = flatten (bitmap c)\<rparr>)"

text \<open>\<^verbatim>\<open>ctx.createImageData(w, h)\<close>: zero-filled, with the same exception.\<close>

definition createImageData :: "nat \<Rightarrow> nat \<Rightarrow> ImageData option" where
  "createImageData w h =
     (if w = 0 \<or> h = 0 then None
      else Some \<lparr>dwidth = w, dheight = h, data = replicate (4 * w * h) 0\<rparr>)"

text \<open>
  \<^verbatim>\<open>ctx.putImageData(imageData, 0, 0)\<close>: every canvas pixel that lies inside the image
  data's rectangle is replaced by the four bytes at its position there.
\<close>

definition pixelAt :: "ImageData \<Rightarrow> nat \<Rightarrow> nat \<Rightarrow> rgba" where
  "pixelAt d px py =
     (let i = 4 * (py * dwidth d + px)
      in (data d ! i, data d ! (i + 1), data d ! (i + 2), data d ! (i + 3)))"

definition putImageData :: "ImageData \<Rightarrow> Canvas \<Rightarrow> Canvas" where
  "putImageData d c =
     c\<lparr>bitmap :=
         map (\<lambda>(p, old).
                if p mod cwidth c < dwidth d \<and> p div cwidth c < dheight d
                then pixelAt d (p mod cwidth c) (p div cwidth c) else old)
             (zip [0..<length (bitmap c)] (bitmap c))\<rparr>"

text \<open>
  \<^verbatim>\<open>fillRect(x, y, w, h)\<close> with an opaque fill style and whole-number arguments: the
  pixels of the rectangle take the fill colour. \<^verbatim>\<open>clearRect\<close> makes them transparent.
\<close>

definition fillRect :: "rgba \<Rightarrow> nat \<Rightarrow> nat \<Rightarrow> nat \<Rightarrow> nat \<Rightarrow> Canvas \<Rightarrow> Canvas" where
  "fillRect colour x y w h c =
     c\<lparr>bitmap :=
         map (\<lambda>(p, old).
                if x \<le> p mod cwidth c \<and> p mod cwidth c < x + w \<and>
                   y \<le> p div cwidth c \<and> p div cwidth c < y + h
                then colour else old)
             (zip [0..<length (bitmap c)] (bitmap c))\<rparr>"

definition clearRect :: "nat \<Rightarrow> nat \<Rightarrow> nat \<Rightarrow> nat \<Rightarrow> Canvas \<Rightarrow> Canvas" where
  "clearRect x y w h c = fillRect transparent x y w h c"

text \<open>
  \<^verbatim>\<open>ctx.drawImage(img, 0, 0)\<close> as \<^verbatim>\<open>setupCanvas\<close> calls it: on a canvas that has just
  been given the image's size and cleared, so that drawing replaces the pixels.
\<close>

definition drawImage :: "Image \<Rightarrow> Canvas \<Rightarrow> Canvas" where
  "drawImage img c =
     c\<lparr>bitmap :=
         map (\<lambda>(p, old). if p < length (ipixels img) then ipixels img ! p else old)
             (zip [0..<length (bitmap c)] (bitmap c))\<rparr>"

text \<open>
  Source-over compositing of an opaque colour, with coverage \<^verbatim>\<open>cov\<close> out of 255, onto
  a pixel: the result colour is the average of source and destination weighted by
  their alpha contributions, the result alpha is their sum. Coverage 0 leaves the
  pixel as it is.
\<close>

definition blendChannel :: "nat \<Rightarrow> nat \<Rightarrow> byte \<Rightarrow> byte \<Rightarrow> byte" where
  "blendChannel cov ad cs cd =
     of_nat ((255 * cov * unat cs + unat cd * ad * (255 - cov))
             div (255 * cov + ad * (255 - cov)))"

definition blend :: "rgba \<Rightarrow> byte \<Rightarrow> rgba \<Rightarrow> rgba" where
  "blend src cov dst =
     (case (src, dst) of
        ((rs, gs, bs, as), (rd, gd, bd, ad)) \<Rightarrow>
          if cov = 0 then dst
          else (blendChannel (unat cov) (unat ad) rs rd,
                blendChannel (unat cov) (unat ad) gs gd,
                blendChannel (unat cov) (unat ad) bs bd,
                of_nat ((255 * unat cov + unat ad * (255 - unat cov)) div 255)))"

text \<open>
  \<^verbatim>\<open>beginPath(); arc(x, y, r, 0, 2 * Math.PI); fill()\<close> with fill style \<^verbatim>\<open>colour\<close>:
  every pixel is composited with the coverage the rasteriser gives it.
\<close>

definition fillArc :: "Browser \<Rightarrow> rgba \<Rightarrow> rat \<Rightarrow> rat \<Rightarrow> rat \<Rightarrow> Canvas \<Rightarrow> Canvas" where
  "fillArc env colour x y r c =
     c\<lparr>bitmap :=
         map (\<lambda>(p, old). blend colour (arcCoverage env x y r (cwidth c) (cheight c) p) old)
             (zip [0..<length (bitmap c)] (bitmap c))\<rparr>"

text \<open>
  \<^verbatim>\<open>canvas.toDataURL('image/png')\<close> and \<^verbatim>\<open>canvas.toBlob(cb, 'image/png')\<close>: the
  lossless encoding of the bitmap. A canvas without pixels gives the \<^verbatim>\<open>null\<close> blob.
\<close>

definition toDataURL :: "Canvas \<Rightarrow> content" where
  "toDataURL c = Png (cwidth c) (cheight c) (bitmap c)"

definition toBlobPng :: "Browser \<Rightarrow> Canvas \<Rightarrow> Blob option" where
  "toBlobPng env c =
     (if cwidth c = 0 \<or> cheight c = 0 then None
      else Some \<lparr>bsize = pngSize env (cwidth c) (cheight c) (bitmap c),
                 btype = ''image/png'',
                 bcontent = Png (cwidth c) (cheight c) (bitmap c)\<rparr>)"

section \<open>The editor component\<close>

text \<open>
  The state of \<^verbatim>\<open>ImageEditor\<close>: the two canvas refs (\<^verbatim>\<open>None\<close> while the canvases are
  not mounted), the cached \<^verbatim>\<open>originalImageDataRef\<close> and the \<^verbatim>\<open>useState\<close> cells.
  \<^verbatim>\<open>maskImage\<close> holds the data URL of the generated alpha mask.
\<close>

record State =
  canvas :: "Canvas option"
  maskCanvas :: "Canvas option"
  originalImageData :: "ImageData option"
  imageSt :: "Image option"
  originalFile :: "File option"
  isDrawing :: bool
  brushSize :: nat
  prompt :: jsstring
  editedImage :: "string option"
  maskImage :: "content option"
  isLoading :: bool
  error :: string

definition initialState :: State where
  "initialState =
     \<lparr>canvas = None, maskCanvas = None, originalImageData = None, imageSt = None,
      originalFile = None, isDrawing = False, brushSize = 20, prompt = [],
      editedImage = None, maskImage = None, isLoading = False, error = []\<rparr>"

text \<open>
  \<^verbatim>\<open>setupCanvas\<close> (lines 162 to 199). When the image has no pixels,
  \<^verbatim>\<open>getImageData\<close> throws after both canvases have been resized, and the rest of the
  function does not run.
\<close>

definition setupCanvas :: "Image \<Rightarrow> State \<Rightarrow> State" where
  "setupCanvas img st =
     (case (canvas st, maskCanvas st) of
        (Some cv, Some mc) \<Rightarrow>
          if \<not> ctx2d cv \<or> \<not> ctx2d mc then st
          else
            (let cv1 = setHeight (iheight img) (setWidth (iwidth img) cv);
                 mc1 = setHeight (iheight img) (setWidth (iwidth img) mc);
                 cv2 = drawImage img (clearRect 0 0 (cwidth cv1) (cheight cv1) cv1)
             in case getImageData cv2 of
                  None \<Rightarrow> st\<lparr>canvas := Some cv2, maskCanvas := Some mc1\<rparr>
                | Some d \<Rightarrow>
                    st\<lparr>canvas := Some cv2,
                       maskCanvas := Some (fillRect black 0 0 (iwidth img) (iheight img) mc1),
                       originalImageData := Some d\<rparr>)
      | _ \<Rightarrow> st)"

text \<open>
  \<^verbatim>\<open>handleImageUpload\<close> (lines 118 to 159), run to the end of its callbacks. The
  compressor never rejects, so the \<^verbatim>\<open>catch\<close> branch is not reached from it.
\<close>

definition handleImageUpload :: "Browser \<Rightarrow> File option \<Rightarrow> State \<Rightarrow> State" where
  "handleImageUpload env fileOpt st =
     (case fileOpt of
        None \<Rightarrow> st
      | Some file \<Rightarrow>
          (let st1 = st\<lparr>error := [], editedImage := None, maskImage := None\<rparr>;
               compressedFile = fst (compressImage env file 4000);
               st2 = st1\<lparr>originalFile := Some compressedFile\<rparr>
           in if \<not> readAsDataURL env compressedFile
              then st2\<lparr>error := ''Failed to read file. Please try again.''\<rparr>
              else
                (case decode env compressedFile of
                   None \<Rightarrow> st2\<lparr>error := ''Failed to load image. Please try another file.''\<rparr>
                 | Some img \<Rightarrow> setupCanvas img (st2\<lparr>imageSt := Some img\<rparr>))))"

text \<open>
  React renders the two canvases only while \<^verbatim>\<open>image\<close> is set (lines 550 and 572), after
  the handler that set it has returned.
\<close>

definition mount :: "Browser \<Rightarrow> State \<Rightarrow> State" where
  "mount env st =
     (if imageSt st \<noteq> None \<and> canvas st = None
      then st\<lparr>canvas := Some (createCanvas (newCanvasCtx env)),
              maskCanvas := Some (createCanvas (newCanvasCtx env))\<rparr>
      else st)"

text \<open>
  The loop of \<^verbatim>\<open>updateCanvasWithMask\<close> (lines 249 to 256). A write beyond the end of a
  typed array is ignored, as \<^verbatim>\<open>list_update\<close> does.
\<close>

function overlayLoop :: "nat \<Rightarrow> byte list \<Rightarrow> byte list \<Rightarrow> byte list" where
  "overlayLoop i maskData imgData =
     (if i < length maskData then
        overlayLoop (i + 4) maskData
          (if maskData ! i > 128 then
             imgData[i := of_nat (min 255 (unat (imgData ! i) + 100)),
                     i + 1 := of_nat (unat (imgData ! (i + 1)) - 50),
                     i + 2 := of_nat (unat (imgData ! (i + 2)) - 50)]
           else imgData)
      else imgData)"
  by pat_completeness auto
termination
  by (relation "measure (\<lambda>(i, maskData, imgData). length maskData - i)") auto

declare overlayLoop.simps [simp del]

definition updateCanvasWithMask :: "State \<Rightarrow> State" where
  "updateCanvasWithMask st =
     (case (canvas st, maskCanvas st, originalImageData st) of
        (Some cv, Some mc, Some orig) \<Rightarrow>
          if \<not> ctx2d cv \<or> \<not> ctx2d mc then st
          else
            (let cv1 = putImageData orig cv
             in case getImageData mc of
                  None \<Rightarrow> st\<lparr>canvas := Some cv1\<rparr>
                | Some maskImageData \<Rightarrow>
                    (case getImageData cv1 of
                       None \<Rightarrow> st\<lparr>canvas := Some cv1\<rparr>
                     | Some imageData \<Rightarrow>
                         st\<lparr>canvas := Some
                              (putImageData
                                 (imageData\<lparr>data :=
                                    overlayLoop 0 (data maskImageData) (data imageData)\<rparr>)
                                 cv1)\<rparr>))
      | _ \<Rightarrow> st)"

text \<open>\<^verbatim>\<open>drawMask\<close> (lines 262 to 277).\<close>

definition drawMask :: "Browser \<Rightarrow> rat \<Rightarrow> rat \<Rightarrow> State \<Rightarrow> State" where
  "drawMask env x y st =
     (case maskCanvas st of
        None \<Rightarrow> st
      | Some mc \<Rightarrow>
          if \<not> ctx2d mc then st
          else updateCanvasWithMask
                 (st\<lparr>maskCanvas :=
                       Some (fillArc env white x y (of_nat (brushSize st) / 2) mc)\<rparr>))"

text \<open>
  The drawing handlers (lines 280 to 296), given the position that \<^verbatim>\<open>getPosition\<close>
  computed for the event.
\<close>

definition startDrawing :: "Browser \<Rightarrow> rat \<Rightarrow> rat \<Rightarrow> State \<Rightarrow> State" where
  "startDrawing env x y st = drawMask env x y (st\<lparr>isDrawing := True\<rparr>)"

definition continueDrawing :: "Browser \<Rightarrow> rat \<Rightarrow> rat \<Rightarrow> State \<Rightarrow> State" where
  "continueDrawing env x y st = (if \<not> isDrawing st then st else drawMask env x y st)"

definition stopDrawing :: "State \<Rightarrow> State" where
  "stopDrawing st = st\<lparr>isDrawing := False\<rparr>"

text \<open>\<^verbatim>\<open>clearMask\<close> (lines 299 to 316).\<close>

definition clearMask :: "State \<Rightarrow> State" where
  "clearMask st =
     (case originalImageData st of
        None \<Rightarrow> st
      | Some orig \<Rightarrow>
          (case (canvas st, maskCanvas st) of
             (Some cv, Some mc) \<Rightarrow>
               if \<not> ctx2d cv \<or> \<not> ctx2d mc then st
               else st\<lparr>maskCanvas := Some (fillRect black 0 0 (cwidth mc) (cheight mc) mc),
                       canvas := Some (putImageData orig cv)\<rparr>
           | _ \<Rightarrow> st))"

text \<open>The loop of \<^verbatim>\<open>generateMaskImage\<close> (lines 352 to 368).\<close>

function alphaLoop :: "nat \<Rightarrow> byte list \<Rightarrow> byte list \<Rightarrow> byte list" where
  "alphaLoop i maskData alphaData =
     (if i < length maskData then
        alphaLoop (i + 4) maskData
          (if maskData ! i > 128 then
             alphaData[i := 255, i + 1 := 255, i + 2 := 255, i + 3 := 255]
           else alphaData[i := 0, i + 1 := 0, i + 2 := 0, i + 3 := 0])
      else alphaData)"
  by pat_completeness auto
termination
  by (relation "measure (\<lambda>(i, maskData, alphaData). length maskData - i)") auto

declare alphaLoop.simps [simp del]

text \<open>
  \<^verbatim>\<open>generateMaskImage\<close> (lines 319 to 377). The alpha canvas is a new element that is
  given the mask canvas's size. An exception of \<^verbatim>\<open>getImageData\<close> or
  \<^verbatim>\<open>createImageData\<close> leaves the state as it was.
\<close>

definition generateMaskImage :: "Browser \<Rightarrow> State \<Rightarrow> State" where
  "generateMaskImage env st =
     (case maskCanvas st of
        None \<Rightarrow> st\<lparr>error := ''Mask canvas not found''\<rparr>
      | Some mc \<Rightarrow>
          if \<not> ctx2d mc then st\<lparr>error := ''Mask canvas context not found''\<rparr>
          else
            (let alphaCanvas =
                   setHeight (cheight mc) (setWidth (cwidth mc) (createCanvas (newCanvasCtx env)))
             in if \<not> ctx2d alphaCanvas then st\<lparr>error := ''Alpha canvas context not found''\<rparr>
                else
                  (case getImageData mc of
                     None \<Rightarrow> st
                   | Some maskImageData \<Rightarrow>
                       (case createImageData (cwidth mc) (cheight mc) of
                          None \<Rightarrow> st
                        | Some alphaImageData \<Rightarrow>
                            st\<lparr>maskImage := Some
                                 (toDataURL
                                    (putImageData
                                       (alphaImageData\<lparr>data :=
                                          alphaLoop 0 (data maskImageData) (data alphaImageData)\<rparr>)
                                       alphaCanvas)),
                               error := []\<rparr>))))"

text \<open>
  \<^verbatim>\<open>String.prototype.trim\<close> removes the code units of ECMAScript's \<^verbatim>\<open>WhiteSpace\<close> and
  \<^verbatim>\<open>LineTerminator\<close> productions from both ends.
\<close>

definition isWhiteSpace :: "16 word \<Rightarrow> bool" where
  "isWhiteSpace c =
     (c = 0x9 \<or> c = 0xA \<or> c = 0xB \<or> c = 0xC \<or> c = 0xD \<or> c = 0x20 \<or> c = 0xA0 \<or>
      c = 0x1680 \<or> (0x2000 \<le> c \<and> c \<le> 0x200A) \<or> c = 0x2028 \<or> c = 0x2029 \<or>
      c = 0x202F \<or> c = 0x205F \<or> c = 0x3000 \<or> c = 0xFEFF)"

definition trim :: "jsstring \<Rightarrow> jsstring" where
  "trim s = rev (dropWhile isWhiteSpace (rev (dropWhile isWhiteSpace s)))"

text \<open>The decimal digits of a number, as a template literal prints a status.\<close>

fun showNat :: "nat \<Rightarrow> string" where
  "showNat n =
     (if n < 10 then [char_of (48 + n)]
      else showNat (n div 10) @ [char_of (48 + n mod 10)])"

declare showNat.simps [simp del]

text \<open>
  What \<^verbatim>\<open>handleSubmit\<close> does with the outcome of \<^verbatim>\<open>fetch\<close> (lines 425 to 447); the
  \<^verbatim>\<open>finally\<close> block resets \<^verbatim>\<open>isLoading\<close> on every path.
\<close>

definition handleResponse :: "FetchResult \<Rightarrow> State \<Rightarrow> State" where
  "handleResponse res st =
     (case res of
        Rejected msg \<Rightarrow>
          st\<lparr>isLoading := False, error := ''Error submitting request: '' @ msg\<rparr>
      | Responded code body \<Rightarrow>
          if \<not> (200 \<le> code \<and> code \<le> 299) then
            st\<lparr>isLoading := False,
               error := ''Error submitting request: '' @
                        ''API request failed with status '' @ showNat code\<rparr>
          else
            (case body of
               Inl msg \<Rightarrow>
                 st\<lparr>isLoading := False, error := ''Error submitting request: '' @ msg\<rparr>
             | Inr result \<Rightarrow>
                 if success result \<and> editedImageUrl result \<noteq> None \<and>
                    editedImageUrl result \<noteq> Some []
                 then st\<lparr>isLoading := False, editedImage := editedImageUrl result,
                         error := []\<rparr>
                 else st\<lparr>isLoading := False,
                         error := (if apiError result \<noteq> None \<and> apiError result \<noteq> Some []
                                   then the (apiError result)
                                   else ''Failed to edit image - no URL returned'')\<rparr>))"

text \<open>
  \<^verbatim>\<open>handleSubmit\<close> (lines 390 to 448). The second component lists the requests handed
  to \<^verbatim>\<open>fetch\<close>.
\<close>

definition handleSubmit :: "Browser \<Rightarrow> State \<Rightarrow> State \<times> EditRequest list" where
  "handleSubmit env st =
     (if originalFile st = None \<or> trim (prompt st) = [] then
        (st\<lparr>error := ''Please upload an image and enter a prompt''\<rparr>, [])
      else
        (case maskCanvas st of
           None \<Rightarrow>
             (st\<lparr>isLoading := False,
                 error := ''Error submitting request: Mask canvas not found''\<rparr>, [])
         | Some mc \<Rightarrow>
             (case toBlobPng env mc of
                None \<Rightarrow>
                  (st\<lparr>isLoading := False,
                      error := ''Error submitting request: Failed to create mask blob''\<rparr>, [])
              | Some maskBlob \<Rightarrow>
                  (let formData =
                         \<lparr>reqImage = the (originalFile st), reqMask = maskBlob,
                          reqPrompt = prompt st\<rparr>
                   in (handleResponse (fetch env formData) (st\<lparr>isLoading := True, error := []\<rparr>),
                       [formData])))))"

text \<open>The events of the component, and the handler each one runs.\<close>

datatype Event =
    Upload "File option"
  | Mount
  | StartDrawing rat rat
  | ContinueDrawing rat rat
  | StopDrawing
  | ClearMask
  | GenerateMask
  | Submit
  | BrushSizeChange nat
  | PromptChange jsstring

fun isUpload :: "Event \<Rightarrow> bool" where
  "isUpload (Upload f) = True"
| "isUpload _ = False"

fun step :: "Browser \<Rightarrow> Event \<Rightarrow> State \<Rightarrow> State" where
  "step env (Upload f) st = handleImageUpload env f st"
| "step env Mount st = mount env st"
| "step env (StartDrawing x y) st = startDrawing env x y st"
| "step env (ContinueDrawing x y) st = continueDrawing env x y st"
| "step env StopDrawing st = stopDrawing st"
| "step env ClearMask st = clearMask st"
| "step env GenerateMask st = generateMaskImage env st"
| "step env Submit st = fst (handleSubmit env st)"
| "step env (BrushSizeChange n) st = st\<lparr>brushSize := n\<rparr>"
| "step env (PromptChange p) st = st\<lparr>prompt := p\<rparr>"

fun run :: "Browser \<Rightarrow> Event list \<Rightarrow> State \<Rightarrow> State" where
  "run env [] st = st"
| "run env (e # es) st = run env es (step env e st)"

text \<open>
  The mask buffer has the source image's size; a pixel counts as white when its red
  channel exceeds 128, the test of lines 250 and 353.
\<close>

definition maskMatchesImage :: "State \<Rightarrow> bool" where
  "maskMatchesImage st =
     (case (imageSt st, maskCanvas st) of
        (Some img, Some mc) \<Rightarrow> cwidth mc = iwidth img \<and> cheight mc = iheight img
      | _ \<Rightarrow> False)"

definition isWhite :: "rgba \<Rightarrow> bool" where
  "isWhite px = (fst px > 128)"

definition whiteCount :: "State \<Rightarrow> nat" where
  "whiteCount st =
     (case maskCanvas st of None \<Rightarrow> 0 | Some mc \<Rightarrow> length (filter isWhite (bitmap mc)))"

section \<open>The API route\<close>

text \<open>
  \<^verbatim>\<open>POST\<close> of \<^verbatim>\<open>src/unnamed/part_000\<close>. \<^verbatim>\<open>formData.get\<close> returns a file, a string
  or \<^verbatim>\<open>null\<close> for every entry. The route casts the \<^verbatim>\<open>image\<close> and \<^verbatim>\<open>mask\<close>
  entries to files without a test, and tests the type of the \<^verbatim>\<open>prompt\<close> entry only. A
  thrown value is an \<^verbatim>\<open>Error\<close> with its message and, for the errors of the OpenAI
  client, a numeric \<^verbatim>\<open>status\<close>, or it is not an \<^verbatim>\<open>Error\<close>.
\<close>

datatype FormValue = FString jsstring | FFile File

record FormFields =
  fdImage :: "FormValue option"
  fdMask :: "FormValue option"
  fdPrompt :: "FormValue option"

datatype Thrown = ErrorObj "nat option" string | NonError

record ImageDatum =
  url :: "string option"
  b64_json :: "string option"

record EditCall =
  callModel :: string
  callImage :: File
  callMask :: File
  callPrompt :: jsstring
  callN :: nat
  callSize :: string

text \<open>
  Outside the route: the outcome of \<^verbatim>\<open>openai.images.edit\<close> (a thrown value, or the
  response's \<^verbatim>\<open>data\<close>), the text of \<^verbatim>\<open>Math.round(size / 1024 / 1024 * 100) / 100\<close>
  in the size messages, and the message of the \<^verbatim>\<open>TypeError\<close> that the engine raises
  when a method is called on \<^verbatim>\<open>undefined\<close>.
\<close>

record Server =
  imagesEdit :: "EditCall \<Rightarrow> Thrown + ImageDatum list option"
  fmtMB :: "nat \<Rightarrow> string"
  typeErrorMessage :: string

record NextResponse =
  status :: nat
  body :: ApiResponse

definition jsonError :: "nat \<Rightarrow> string \<Rightarrow> NextResponse" where
  "jsonError code msg =
     \<lparr>status = code, body = \<lparr>success = False, editedImageUrl = None, apiError = Some msg\<rparr>\<rparr>"

definition jsonSuccess :: "string \<Rightarrow> NextResponse" where
  "jsonSuccess imageUrl =
     \<lparr>status = 200,
      body = \<lparr>success = True, editedImageUrl = Some imageUrl, apiError = None\<rparr>\<rparr>"

text \<open>
  \<^verbatim>\<open>!entry\<close>: \<^verbatim>\<open>null\<close> and the empty string are falsy, a file and a non-empty string
  are not.
\<close>

definition falsy :: "FormValue option \<Rightarrow> bool" where
  "falsy entry = (entry = None \<or> entry = Some (FString []))"

text \<open>
  \<^verbatim>\<open>entry.size\<close>: a string has no such property, the value is \<^verbatim>\<open>undefined\<close>
  (\<^verbatim>\<open>None\<close>), and \<^verbatim>\<open>undefined > maxSize\<close> is false.
\<close>

definition sizeOf :: "FormValue \<Rightarrow> nat option" where
  "sizeOf entry = (case entry of FFile f \<Rightarrow> Some (fsize f) | FString s \<Rightarrow> None)"

definition exceeds :: "nat option \<Rightarrow> nat \<Rightarrow> bool" where
  "exceeds sz maxSize = (case sz of Some n \<Rightarrow> n > maxSize | None \<Rightarrow> False)"

text \<open>
  \<^verbatim>\<open>isValidImageFile\<close> (lines 23 to 25). On a string, \<^verbatim>\<open>file.type\<close> is
  \<^verbatim>\<open>undefined\<close> and the call of \<^verbatim>\<open>startsWith\<close> throws a \<^verbatim>\<open>TypeError\<close>: \<^verbatim>\<open>None\<close>.
\<close>

definition isValidImageFile :: "FormValue \<Rightarrow> bool option" where
  "isValidImageFile file =
     (case file of
        FFile f \<Rightarrow> Some (take 6 (ftype f) = ''image/'')
      | FString s \<Rightarrow> None)"

text \<open>
  \<^verbatim>\<open>fileToBuffer\<close> (lines 28 to 31) followed by
  \<^verbatim>\<open>new File([buffer], name, { type: file.type })\<close>: the same bytes under a new name.
  On a string, \<^verbatim>\<open>file.arrayBuffer\<close> is not a function and the call throws: \<^verbatim>\<open>None\<close>.
\<close>

definition fileForApi :: "string \<Rightarrow> FormValue \<Rightarrow> File option" where
  "fileForApi name entry =
     (case entry of
        FFile f \<Rightarrow> Some (f\<lparr>fname := name\<rparr>)
      | FString s \<Rightarrow> None)"

fun includesStr :: "string \<Rightarrow> string \<Rightarrow> bool" where
  "includesStr [] pat = (pat = [])"
| "includesStr (c # cs) pat = (take (length pat) (c # cs) = pat \<or> includesStr cs pat)"

definition js :: "string \<Rightarrow> jsstring" where
  "js s = map (\<lambda>c. of_nat (of_char c)) s"

definition enhancedPrompt :: "jsstring \<Rightarrow> jsstring" where
  "enhancedPrompt userPrompt =
     js (''You are a professional landscape designer. You are given an image of a '' @
         ''landscape and a mask indicating specific areas to edit. '' @ [CHR 0x0A, CHR 0x0A] @
         ''        Your task:'' @ [CHR 0x0A] @
         ''        1. Only edit the areas specified by the mask (white/opaque areas)'' @
         [CHR 0x0A] @
         ''        2. Maintain the original landscape'' @ [CHR 0x27] @
         ''s style, lighting, and perspective, and the original house structure and '' @
         ''roof, driveway, road, sidewalk, and other structures'' @ [CHR 0x0A] @
         ''        3. Ensure the edited elements blend naturally with the existing '' @
         ''landscape'' @ [CHR 0x0A, CHR 0x0A] @
         ''        Edit request: '') @
     trim userPrompt @
     js ([CHR 0x0A, CHR 0x0A] @
         ''        Please seamlessly integrate this edit into the masked areas while '' @
         ''preserving the natural look of the landscape.'')"

text \<open>The \<^verbatim>\<open>catch\<close> block (lines 156 to 216).\<close>

definition handleThrown :: "Thrown \<Rightarrow> NextResponse" where
  "handleThrown err =
     (case err of
        NonError \<Rightarrow> jsonError 500 ''An unexpected error occurred while editing the image''
      | ErrorObj st msg \<Rightarrow>
          if st = Some 400 then
            jsonError 400
              (''Invalid request to OpenAI API. Please check your image format, size, '' @
               ''and mask. Make sure both images are the same dimensions and under 4MB.'')
          else if st = Some 401 then
            jsonError 401 ''Invalid OpenAI API key. Please check your configuration.''
          else if st = Some 413 then
            jsonError 413 ''Files too large. Please reduce image size to under 4MB.''
          else if st = Some 429 then
            jsonError 429 ''Rate limit exceeded. Please try again later.''
          else if st = Some 500 then
            jsonError 500 ''OpenAI API server error. Please try again later.''
          else if includesStr msg ''Connection error'' \<or> includesStr msg ''ECONNRESET'' then
            jsonError 408
              (''Connection timeout. This usually happens with large files. Please try '' @
               ''with a smaller image (under 2MB recommended).'')
          else jsonError 500 (''Failed to edit image: '' @ msg))"

text \<open>
  The route (lines 33 to 155). The request is the parsed form, or the message with
  which \<^verbatim>\<open>request.formData()\<close> throws. The second component lists the calls made to
  the external API. Every exception is caught by the \<^verbatim>\<open>catch\<close> block.
\<close>

definition POST :: "Server \<Rightarrow> string + FormFields \<Rightarrow> NextResponse \<times> EditCall list" where
  "POST api request =
     (case request of
        Inl msg \<Rightarrow> (handleThrown (ErrorObj None msg), [])
      | Inr formData \<Rightarrow>
          if falsy (fdImage formData) \<or> falsy (fdMask formData) \<or> falsy (fdPrompt formData)
          then (jsonError 400 ''Missing required fields: image, mask, and prompt'', [])
          else
            (let imageFile = the (fdImage formData);
                 maskFile = the (fdMask formData);
                 promptEntry = the (fdPrompt formData);
                 maxSize = 4 * 1024 * 1024
             in if exceeds (sizeOf imageFile) maxSize then
                  (jsonError 400
                     (''Image file too large: '' @ fmtMB api (the (sizeOf imageFile)) @
                      ''MB. Maximum allowed: 4MB. Please resize your image.''), [])
                else if exceeds (sizeOf maskFile) maxSize then
                  (jsonError 400
                     (''Mask file too large: '' @ fmtMB api (the (sizeOf maskFile)) @
                      ''MB. Maximum allowed: 4MB.''), [])
                else
                  (case isValidImageFile imageFile of
                     None \<Rightarrow> (handleThrown (ErrorObj None (typeErrorMessage api)), [])
                   | Some False \<Rightarrow>
                       (jsonError 400
                          ''Invalid image file type. Please upload a valid image file.'', [])
                   | Some True \<Rightarrow>
                  (case isValidImageFile maskFile of
                     None \<Rightarrow> (handleThrown (ErrorObj None (typeErrorMessage api)), [])
                   | Some False \<Rightarrow>
                       (jsonError 400
                          ''Invalid mask file type. Please provide a valid mask image.'', [])
                   | Some True \<Rightarrow>
                  (case promptEntry of
                     FFile f \<Rightarrow> (jsonError 400 ''Prompt must be a non-empty string'', [])
                   | FString p \<Rightarrow>
                       if length (trim p) = 0 then
                         (jsonError 400 ''Prompt must be a non-empty string'', [])
                       else
                  (case (fileForApi ''image.png'' imageFile, fileForApi ''mask.png'' maskFile) of
                     (Some imageForApi, Some maskForApi) \<Rightarrow>
                         (let call =
                                \<lparr>callModel = ''gpt-image-1'',
                                 callImage = imageForApi,
                                 callMask = maskForApi,
                                 callPrompt = enhancedPrompt p,
                                 callN = 1,
                                 callSize = ''1024x1024''\<rparr>
                          in (case imagesEdit api call of
                                Inl err \<Rightarrow> (handleThrown err, [call])
                              | Inr None \<Rightarrow>
                                  (jsonError 500 ''No edited image returned from OpenAI API'',
                                   [call])
                              | Inr (Some []) \<Rightarrow>
                                  (jsonError 500 ''No edited image returned from OpenAI API'',
                                   [call])
                              | Inr (Some (imageData # rest)) \<Rightarrow>
                                  if url imageData \<noteq> None \<and> url imageData \<noteq> Some [] then
                                    (jsonSuccess (the (url imageData)), [call])
                                  else if b64_json imageData \<noteq> None \<and>
                                          b64_json imageData \<noteq> Some [] then
                                    (jsonSuccess
                                       (''data:image/png;base64,'' @ the (b64_json imageData)),
                                     [call])
                                  else
                                    (jsonError 500 ''Invalid response format from OpenAI API'',
                                     [call])))
                   | _ \<Rightarrow> (handleThrown (ErrorObj None (typeErrorMessage api)), [])))))))"

section \<open>Example values\<close>

text \<open>
  A browser in which every non-empty file decodes to a two-pixel image and an empty
  file does not decode, every JPEG encoding of a canvas that has a pixel weighs
  5,000,000 bytes and an empty canvas gives the null blob, the rasteriser
  covers a pixel fully when its centre lies in the disc and not at all otherwise, and
  \<^verbatim>\<open>fetch\<close> succeeds; and a PNG upload of a given size.
\<close>

definition demoImage :: Image where
  "demoImage = \<lparr>iwidth = 2, iheight = 1, ipixels = [(10, 20, 30, 255), (200, 100, 50, 255)]\<rparr>"

definition demoFile :: "nat \<Rightarrow> File" where
  "demoFile n = \<lparr>fsize = n, fname = ''photo.png'', ftype = ''image/png'', fcontent = Bytes 0\<rparr>"

definition demoBrowser :: Browser where
  "demoBrowser =
     \<lparr>decode = (\<lambda>f. if fsize f = 0 then None else Some demoImage),
      newCanvasCtx = True,
      toBlobJpeg = (\<lambda>img w h q.
                      if w < 1 \<or> h < 1 then None
                      else Some \<lparr>bsize = 5000000, btype = ''image/jpeg'', bcontent = Bytes 1\<rparr>),
      readAsDataURL = (\<lambda>f. True),
      pngSize = (\<lambda>w h bm. 100),
      arcCoverage = (\<lambda>x y r w h p.
                       if (of_nat (p mod w) + 1 / 2 - x)\<^sup>2 + (of_nat (p div w) + 1 / 2 - y)\<^sup>2
                            \<le> r\<^sup>2
                       then 255 else 0),
      fetch = (\<lambda>req. Responded 200
                 (Inr \<lparr>success = True, editedImageUrl = Some ''blob:edited'', apiError = None\<rparr>))\<rparr>"

text \<open>
  A state after set-up on a three-pixel image, with a mask whose red channels lie on
  both sides of the threshold.
\<close>

definition displayCanvas :: Canvas where
  "displayCanvas =
     \<lparr>cwidth = 3, cheight = 1,
      bitmap = [(10, 20, 30, 255), (40, 50, 60, 255), (70, 80, 90, 255)], ctx2d = True\<rparr>"

definition thresholdMask :: Canvas where
  "thresholdMask =
     \<lparr>cwidth = 3, cheight = 1,
      bitmap = [(128, 128, 128, 255), (129, 129, 129, 255), (255, 255, 255, 255)],
      ctx2d = True\<rparr>"

definition paintedState :: State where
  "paintedState =
     initialState\<lparr>canvas := Some displayCanvas, maskCanvas := Some thresholdMask,
                  originalImageData := getImageData displayCanvas\<rparr>"

text \<open>
  Two runs from the initial state. In the first, the second upload finds the canvases
  mounted and sets them up, and a prompt is typed. In the second, the user draws
  after the first upload, whose \<^verbatim>\<open>setupCanvas\<close> ran before the canvases were mounted.
\<close>

definition uploaded :: State where
  "uploaded =
     run demoBrowser
       [Upload (Some (demoFile 1000)), Mount, Upload (Some (demoFile 1000)),
        PromptChange (js ''add a pond'')]
       initialState"

definition drawnBeforeSetup :: State where
  "drawnBeforeSetup =
     run demoBrowser
       [Upload (Some (demoFile 1000)), Mount, StartDrawing 5 5]
       initialState"

text \<open>The state after the first upload, once the canvases are mounted.\<close>

definition mounted :: State where
  "mounted = run demoBrowser [Upload (Some (demoFile 1000)), Mount] initialState"

text \<open>
  A server whose external API returns one image URL; a form with two files and a
  prompt that is a single space; and the same form with a text field sent as the
  image.
\<close>

definition demoServer :: Server where
  "demoServer =
     \<lparr>imagesEdit = (\<lambda>c. Inr (Some [\<lparr>url = Some ''https://example.org/edited.png'',
                                       b64_json = None\<rparr>])),
      fmtMB = (\<lambda>n. ''4.2''),
      typeErrorMessage =
        ''Cannot read properties of undefined (reading '' @ [CHR 0x27] @ ''startsWith'' @
        [CHR 0x27] @ '')''\<rparr>"

definition maskUpload :: File where
  "maskUpload =
     \<lparr>fsize = 100, fname = ''blob'', ftype = ''image/png'',
      fcontent = Png 2 1 [(0, 0, 0, 255), (0, 0, 0, 255)]\<rparr>"

definition blankForm :: FormFields where
  "blankForm =
     \<lparr>fdImage = Some (FFile (demoFile 1000)), fdMask = Some (FFile maskUpload),
      fdPrompt = Some (FString (js '' ''))\<rparr>"

definition textImageForm :: FormFields where
  "textImageForm =
     \<lparr>fdImage = Some (FString (js ''photo'')), fdMask = Some (FFile maskUpload),
      fdPrompt = Some (FString (js '' ''))\<rparr>"

section \<open>Properties of the compressor\<close>

lemma cws_trace_hd: "\<exists>rest. snd (compressWithSettings env f m img q d) = (q, d) # rest"
  by (subst compressWithSettings.simps) (simp split: option.split)


lemma cws_result_last:
  assumes "last (snd (compressWithSettings env f m img q d)) = (q', d')"
  shows "fst (compressWithSettings env f m img q d) =
           (if newCanvasCtx env then
              (case toBlobJpeg env img (fst (scaleDims img d')) (snd (scaleDims img d')) q' of
                 Some blob \<Rightarrow> newFile blob (fname f) ''image/jpeg''
               | None \<Rightarrow> f)
            else f)"
  using assms
proof (induction env f m img q d rule: compressWithSettings.induct)
  case (1 env f m img q d)
  show ?case
  proof (cases "newCanvasCtx env")
    case False
    then have "compressWithSettings env f m img q d = (f, [(q, d)])"
      by (subst compressWithSettings.simps) simp
    with False show ?thesis by simp
  next
    case ctx: True
    show ?thesis
    proof (cases "toBlobJpeg env img (fst (scaleDims img d)) (snd (scaleDims img d)) q")
      case None
      with ctx have eq: "compressWithSettings env f m img q d = (f, [(q, d)])"
        by (subst compressWithSettings.simps) simp
      with "1.prems" have "q' = q" "d' = d" by simp_all
      with ctx None eq show ?thesis by simp
    next
      case (Some blob)
      show ?thesis
      proof (cases "fsize (newFile blob (fname f) ''image/jpeg'') > m * 1024 \<and> q > 1 / 10 \<and> d > 400")
        case False
        with ctx Some have eq: "compressWithSettings env f m img q d =
            (newFile blob (fname f) ''image/jpeg'', [(q, d)])"
          by (subst compressWithSettings.simps) auto
        with "1.prems" have "q' = q" "d' = d" by simp_all
        with ctx Some eq show ?thesis by simp
      next
        case True
        let ?rec = "compressWithSettings env f m img (max (1 / 10) (q - 2 / 10)) (max 400 (d - 200))"
        from ctx Some True have eq: "compressWithSettings env f m img q d = apsnd ((#) (q, d)) ?rec"
          by (subst compressWithSettings.simps) simp
        obtain rest where tr: "snd ?rec = (max (1 / 10) (q - 2 / 10), max 400 (d - 200)) # rest"
          using cws_trace_hd by blast
        from "1.prems" have "last (snd ?rec) = (q', d')"
          unfolding eq using tr by simp
        from "1.IH"[OF ctx Some _ _ this] True have "fst ?rec =
            (if newCanvasCtx env then
              (case toBlobJpeg env img (fst (scaleDims img d')) (snd (scaleDims img d')) q' of
                 Some blob \<Rightarrow> newFile blob (fname f) ''image/jpeg''
               | None \<Rightarrow> f)
             else f)"
          by simp
        then show ?thesis unfolding eq by simp
      qed
    qed
  qed
qed

text \<open>
  Claim C3, as amended. The compressor is called with \<^verbatim>\<open>maxSizeKB = 4000\<close> and compares
  the file size with \<^verbatim>\<open>maxSizeKB * 1024\<close>, so its byte budget is 4,096,000 bytes: a file
  of at most 4,096,000 bytes is returned unchanged and nothing is encoded; a larger file
  is decoded and, when it decodes, \<^verbatim>\<open>compressWithSettings\<close> is run on it with the
  initial settings (at least one encoding attempt); when it does not decode, the file
  is returned unchanged.
\<close>

theorem compressImage_threshold:
  "(fsize f \<le> 4096000 \<longrightarrow> compressImage env f 4000 = (f, [])) \<and>
   (4096000 < fsize f \<longrightarrow>
      (case decode env f of
         None \<Rightarrow> compressImage env f 4000 = (f, [])
       | Some img \<Rightarrow>
           compressImage env f 4000 =
             compressWithSettings env f 4000 img
               (if 10485760 < fsize f then 3 / 10 else 7 / 10)
               (if 10485760 < fsize f then 800 else 1200) \<and>
           snd (compressImage env f 4000) \<noteq> []))"
proof -
  have "snd (compressWithSettings env f 4000 img q d) \<noteq> []" for img q d
    using cws_trace_hd[of env f 4000 img q d] by auto
  then show ?thesis
    by (auto simp: compressImage_def split: option.split)
qed

theorem compressImage_threshold_witness:
  "fsize (demoFile 4096000) \<le> 4096000 \<and>
   compressImage demoBrowser (demoFile 4096000) 4000 = (demoFile 4096000, []) \<and>
   4096000 < fsize (demoFile 4096001) \<and>
   snd (compressImage demoBrowser (demoFile 4096001) 4000) \<noteq> []"
proof -
  have a: "fsize (demoFile 4096000) \<le> 4096000"
    by (simp add: demoFile_def)
  have b: "4096000 < fsize (demoFile 4096001)"
    by (simp add: demoFile_def)
  have c: "decode demoBrowser (demoFile 4096001) = Some demoImage"
    by (simp add: demoBrowser_def demoFile_def)
  have "compressImage demoBrowser (demoFile 4096000) 4000 = (demoFile 4096000, [])"
    using compressImage_threshold [of "demoFile 4096000" demoBrowser] a by blast
  moreover have "snd (compressImage demoBrowser (demoFile 4096001) 4000) \<noteq> []"
  proof -
    have "case decode demoBrowser (demoFile 4096001) of
            None \<Rightarrow> compressImage demoBrowser (demoFile 4096001) 4000 = (demoFile 4096001, [])
          | Some img \<Rightarrow>
              compressImage demoBrowser (demoFile 4096001) 4000 =
                compressWithSettings demoBrowser (demoFile 4096001) 4000 img
                  (if 10485760 < fsize (demoFile 4096001) then 3 / 10 else 7 / 10)
                  (if 10485760 < fsize (demoFile 4096001) then 800 else 1200) \<and>
              snd (compressImage demoBrowser (demoFile 4096001) 4000) \<noteq> []"
      using compressImage_threshold [of "demoFile 4096001" demoBrowser] b by blast
    then show ?thesis unfolding c option.case by (rule conjunct2)
  qed
  ultimately show ?thesis using a b by blast
qed

text \<open>
  The claim as written puts the budget at 4,000,000 bytes. A file of 4,000,001 bytes
  exceeds that, and is passed through without any encoding attempt.
\<close>

theorem compressImage_threshold_counterexample:
  "4000000 < fsize (demoFile 4000001) \<and>
   compressImage demoBrowser (demoFile 4000001) 4000 = (demoFile 4000001, [])"
  by (simp add: compressImage_def demoFile_def)



text \<open>
  Claim C10. Whenever the compressor re-encodes (the file is over the budget, it
  decodes, a 2D context exists and the last encoding attempted yields a blob; the
  earlier attempts did, or none would have followed them), the returned file is built
  from that blob: it has the blob's bytes and size, type \<^verbatim>\<open>image/jpeg\<close> and the name
  of the input file, whatever the input's type was.
\<close>

theorem compressImage_reencodes_as_jpeg:
  assumes "4096000 < fsize f" and "decode env f = Some img" and "newCanvasCtx env"
    and "last (snd (compressImage env f 4000)) = (q, d)"
    and "toBlobJpeg env img (fst (scaleDims img d)) (snd (scaleDims img d)) q = Some blob"
  shows "fst (compressImage env f 4000) = newFile blob (fname f) ''image/jpeg'' \<and>
         ftype (fst (compressImage env f 4000)) = ''image/jpeg'' \<and>
         fname (fst (compressImage env f 4000)) = fname f \<and>
         fsize (fst (compressImage env f 4000)) = bsize blob \<and>
         fcontent (fst (compressImage env f 4000)) = bcontent blob"
proof -
  let ?q0 = "if 10 * 1024 * 1024 < fsize f then 3 / 10 else 7 / 10 :: rat"
  let ?d0 = "if 10 * 1024 * 1024 < fsize f then 800 else 1200 :: int"
  have c: "compressImage env f 4000 = compressWithSettings env f 4000 img ?q0 ?d0"
    using assms(1,2) by (simp add: compressImage_def)
  from assms(4) have "last (snd (compressWithSettings env f 4000 img ?q0 ?d0)) = (q, d)"
    unfolding c .
  from cws_result_last[OF this] assms(3,5)
  have "fst (compressImage env f 4000) = newFile blob (fname f) ''image/jpeg''"
    unfolding c by simp
  then show ?thesis by (simp add: newFile_def)
qed

theorem compressImage_reencodes_as_jpeg_witness:
  "4096000 < fsize (demoFile 6000000) \<and> decode demoBrowser (demoFile 6000000) = Some demoImage \<and>
   newCanvasCtx demoBrowser \<and>
   last (snd (compressImage demoBrowser (demoFile 6000000) 4000)) = (1 / 10, 600) \<and>
   toBlobJpeg demoBrowser demoImage (fst (scaleDims demoImage 600)) (snd (scaleDims demoImage 600))
     (1 / 10) = Some \<lparr>bsize = 5000000, btype = ''image/jpeg'', bcontent = Bytes 1\<rparr> \<and>
   ftype (demoFile 6000000) = ''image/png'' \<and> fcontent (demoFile 6000000) = Bytes 0 \<and>
   fst (compressImage demoBrowser (demoFile 6000000) 4000) =
     \<lparr>fsize = 5000000, fname = ''photo.png'', ftype = ''image/jpeg'', fcontent = Bytes 1\<rparr>"
proof -
  let ?blob = "\<lparr>bsize = 5000000, btype = ''image/jpeg'', bcontent = Bytes 1\<rparr>"
  have a: "4096000 < fsize (demoFile 6000000)"
      "decode demoBrowser (demoFile 6000000) = Some demoImage" "newCanvasCtx demoBrowser"
      "ftype (demoFile 6000000) = ''image/png''" "fcontent (demoFile 6000000) = Bytes 0"
    by (simp_all add: demoBrowser_def demoFile_def)
  have dims: "scaleDims demoImage d = (2, 1)" if "2 \<le> d" for d
    using that by (simp add: scaleDims_def demoImage_def)
  have enc: "toBlobJpeg demoBrowser demoImage (fst (scaleDims demoImage d))
      (snd (scaleDims demoImage d)) q = Some ?blob" if "2 \<le> d" for d q
    by (simp add: dims[OF that] demoBrowser_def)
  have "snd (compressImage demoBrowser (demoFile 6000000) 4000) =
      [(7 / 10, 1200), (1 / 2, 1000), (3 / 10, 800), (1 / 10, 600)]"
    by (simp add: compressImage_def a compressWithSettings.simps enc newFile_def)
      (simp add: demoFile_def)
  then have l: "last (snd (compressImage demoBrowser (demoFile 6000000) 4000)) = (1 / 10, 600)"
    by simp
  have e: "toBlobJpeg demoBrowser demoImage (fst (scaleDims demoImage 600))
      (snd (scaleDims demoImage 600)) (1 / 10) = Some ?blob"
    by (rule enc) simp
  from compressImage_reencodes_as_jpeg [OF a(1) a(2) a(3) l e]
  have "fst (compressImage demoBrowser (demoFile 6000000) 4000) =
      \<lparr>fsize = 5000000, fname = ''photo.png'', ftype = ''image/jpeg'', fcontent = Bytes 1\<rparr>"
    by (simp add: newFile_def demoFile_def)
  with a l e show ?thesis by blast
qed

section \<open>Properties of the canvases and of the mask exporter\<close>

lemma dims_simps [simp]:
  "cwidth (setWidth w c) = w" "cheight (setWidth w c) = cheight c" "ctx2d (setWidth w c) = ctx2d c"
  "cwidth (setHeight h c) = cwidth c" "cheight (setHeight h c) = h" "ctx2d (setHeight h c) = ctx2d c"
  "cwidth (fillRect col x y w h c) = cwidth c" "cheight (fillRect col x y w h c) = cheight c"
  "ctx2d (fillRect col x y w h c) = ctx2d c"
  "cwidth (clearRect x y w h c) = cwidth c" "cheight (clearRect x y w h c) = cheight c"
  "ctx2d (clearRect x y w h c) = ctx2d c"
  "cwidth (drawImage img c) = cwidth c" "cheight (drawImage img c) = cheight c"
  "ctx2d (drawImage img c) = ctx2d c"
  "cwidth (putImageData d c) = cwidth c" "cheight (putImageData d c) = cheight c"
  "ctx2d (putImageData d c) = ctx2d c"
  "cwidth (fillArc env col px py r c) = cwidth c" "cheight (fillArc env col px py r c) = cheight c"
  "ctx2d (fillArc env col px py r c) = ctx2d c"
  by (simp_all add: setWidth_def setHeight_def fillRect_def clearRect_def drawImage_def
      putImageData_def fillArc_def)

lemma bitmap_resized [simp]:
  "bitmap (setHeight h (setWidth w c)) = replicate (w * h) transparent"
  by (simp add: setHeight_def setWidth_def)

lemma fillRect_full:
  assumes "wellFormed c"
  shows "bitmap (fillRect col 0 0 (cwidth c) (cheight c) c) = replicate (cwidth c * cheight c) col"
proof (rule nth_equalityI)
  show "length (bitmap (fillRect col 0 0 (cwidth c) (cheight c) c)) =
        length (replicate (cwidth c * cheight c) col)"
    using assms by (simp add: fillRect_def wellFormed_def)
next
  fix p assume "p < length (bitmap (fillRect col 0 0 (cwidth c) (cheight c) c))"
  then have p: "p < cwidth c * cheight c"
    using assms by (simp add: fillRect_def wellFormed_def)
  then have "0 < cwidth c" by (cases "cwidth c") auto
  with p have "p mod cwidth c < cwidth c \<and> p div cwidth c < cheight c"
    by (simp add: less_mult_imp_div_less mult.commute)
  with p assms show "bitmap (fillRect col 0 0 (cwidth c) (cheight c) c) ! p =
        replicate (cwidth c * cheight c) col ! p"
    by (simp add: fillRect_def wellFormed_def)
qed

lemma setupCanvas_mask_dims:
  assumes "canvas st = Some cv" "maskCanvas st = Some mc" "ctx2d cv" "ctx2d mc"
  shows "\<exists>m. maskCanvas (setupCanvas img st) = Some m \<and>
             cwidth m = iwidth img \<and> cheight m = iheight img"
    and "canvas (setupCanvas img st) \<noteq> None"
    and "imageSt (setupCanvas img st) = imageSt st"
  using assms by (auto simp: setupCanvas_def Let_def split: option.split)

lemma setupCanvas_complete:
  assumes "canvas st = Some cv" "maskCanvas st = Some mc" "ctx2d cv" "ctx2d mc"
    and "0 < iwidth img" "0 < iheight img"
  shows "maskCanvas (setupCanvas img st) =
           Some \<lparr>cwidth = iwidth img, cheight = iheight img,
                 bitmap = replicate (iwidth img * iheight img) black, ctx2d = True\<rparr>"
proof -
  let ?mc1 = "setHeight (iheight img) (setWidth (iwidth img) mc)"
  have wf: "wellFormed ?mc1" by (simp add: wellFormed_def)
  have "bitmap (fillRect black 0 0 (cwidth ?mc1) (cheight ?mc1) ?mc1) =
      replicate (cwidth ?mc1 * cheight ?mc1) black"
    by (rule fillRect_full[OF wf])
  then have bm: "bitmap (fillRect black 0 0 (iwidth img) (iheight img) ?mc1) =
      replicate (iwidth img * iheight img) black" by simp
  have eq: "fillRect black 0 0 (iwidth img) (iheight img) ?mc1 =
      \<lparr>cwidth = iwidth img, cheight = iheight img,
       bitmap = replicate (iwidth img * iheight img) black, ctx2d = True\<rparr>"
    using bm assms(4) by (intro Canvas.equality) simp_all
  show ?thesis
    using assms eq by (simp add: setupCanvas_def Let_def getImageData_def)
qed

lemma length_flatten: "length (flatten ps) = 4 * length ps"
  by (induction ps rule: flatten.induct) auto

lemma flatten_nth_red: "p < length ps \<Longrightarrow> flatten ps ! (4 * p) = fst (ps ! p)"
proof (induction ps arbitrary: p rule: flatten.induct)
  case 1
  then show ?case by simp
next
  case (2 r g b a ps)
  show ?case
  proof (cases p)
    case 0
    then show ?thesis by simp
  next
    case (Suc q)
    with 2 show ?thesis by simp
  qed
qed

lemma length_alphaLoop: "length (alphaLoop i m a) = length a"
proof (induction i m a rule: alphaLoop.induct)
  case (1 i m a)
  show ?case
  proof (cases "i < length m")
    case True
    with "1.IH" show ?thesis by (subst alphaLoop.simps) simp
  next
    case False
    then show ?thesis by (subst alphaLoop.simps) simp
  qed
qed

lemma alphaLoop_nth:
  assumes "length a = length m" and "4 dvd length m" and "4 dvd i" and "j < length m"
  shows "alphaLoop i m a ! j =
           (if i \<le> j then (if m ! (4 * (j div 4)) > 128 then 255 else 0) else a ! j)"
  using assms
proof (induction i m a rule: alphaLoop.induct)
  case (1 i m a)
  show ?case
  proof (cases "i < length m")
    case False
    with "1.prems" show ?thesis by (subst alphaLoop.simps) simp
  next
    case True
    define v :: byte where "v = (if m ! i > 128 then 255 else 0)"
    define a' where "a' = a[i := v, i + 1 := v, i + 2 := v, i + 3 := v]"
    have a'_alt: "a' = (if m ! i > 128
             then a[i := 255, i + 1 := 255, i + 2 := 255, i + 3 := 255]
             else a[i := 0, i + 1 := 0, i + 2 := 0, i + 3 := 0])"
      by (simp add: a'_def v_def)
    have step: "alphaLoop i m a = alphaLoop (i + 4) m a'"
      unfolding a'_alt using True by (subst alphaLoop.simps) simp
    have len: "length a' = length m" using "1.prems" by (simp add: a'_def)
    have dvd4: "4 dvd i + 4" using "1.prems" by simp
    have ih: "alphaLoop (i + 4) m a' ! j =
           (if i + 4 \<le> j then (if m ! (4 * (j div 4)) > 128 then 255 else 0) else a' ! j)"
      using "1.IH"[OF True, folded a'_alt, OF len "1.prems"(2) dvd4 "1.prems"(4)] .
    have bound: "i + 3 < length m"
      using True "1.prems"(2,3) by presburger
    show ?thesis
    proof (cases "i \<le> j \<and> j < i + 4")
      case False
      then have "a' ! j = a ! j" by (auto simp: a'_def)
      with False show ?thesis unfolding step ih by auto
    next
      case mid: True
      then have idx: "4 * (j div 4) = i" using "1.prems"(3) by presburger
      from mid have "j = i \<or> j = i + 1 \<or> j = i + 2 \<or> j = i + 3" by arith
      then have "a' ! j = v"
        using bound "1.prems"(1) by (auto simp: a'_def)
      with mid idx show ?thesis unfolding step ih by (simp add: v_def)
    qed
  qed
qed

lemma alphaLoop_pixel:
  assumes "p < length bm"
  shows "pixelAt \<lparr>dwidth = w, dheight = h,
                  data = alphaLoop 0 (flatten bm) (replicate (4 * length bm) 0)\<rparr> (p mod w) (p div w)
         = (if fst (bm ! p) > 128 then (255, 255, 255, 255) else (0, 0, 0, 0))"
proof -
  let ?m = "flatten bm"
  let ?d = "alphaLoop 0 ?m (replicate (4 * length bm) 0)"
  have idx: "4 * (p div w * w + p mod w) = 4 * p" by simp
  have nth: "?d ! (4 * p + c) = (if fst (bm ! p) > 128 then 255 else 0)" if "c < 4" for c
  proof -
    have j: "4 * p + c < length ?m" using assms that by (simp add: length_flatten)
    have "(4 * p + c) div 4 = p" using that by simp
    then show ?thesis
      using alphaLoop_nth[of "replicate (4 * length bm) 0" ?m 0 "4 * p + c"] j
        flatten_nth_red[OF assms]
      by (simp add: length_flatten)
  qed
  have "?d ! (4 * p) = (if fst (bm ! p) > 128 then 255 else 0)"
    using nth[of 0] by simp
  moreover have "?d ! (4 * p + 1) = (if fst (bm ! p) > 128 then 255 else 0)"
    using nth[of 1] by simp
  moreover have "?d ! (4 * p + 2) = (if fst (bm ! p) > 128 then 255 else 0)"
    using nth[of 2] by simp
  moreover have "?d ! (4 * p + 3) = (if fst (bm ! p) > 128 then 255 else 0)"
    using nth[of 3] by simp
  ultimately show ?thesis
    unfolding pixelAt_def Let_def idx by (simp add: add.assoc)
qed

lemma generateMaskImage_result:
  assumes mc: "maskCanvas st = Some mc" and ctx: "ctx2d mc" "newCanvasCtx env"
    and wf: "wellFormed mc" and pos: "0 < cwidth mc" "0 < cheight mc"
  shows "generateMaskImage env st =
           st\<lparr>maskImage := Some (Png (cwidth mc) (cheight mc)
                  (map (\<lambda>px. if fst px > 128 then (255, 255, 255, 255) else (0, 0, 0, 0))
                     (bitmap mc))),
              error := []\<rparr>"
proof -
  let ?w = "cwidth mc" and ?h = "cheight mc" and ?bm = "bitmap mc"
  let ?ac = "setHeight ?h (setWidth ?w (createCanvas (newCanvasCtx env)))"
  let ?d = "\<lparr>dwidth = ?w, dheight = ?h,
             data = alphaLoop 0 (flatten ?bm) (replicate (4 * length ?bm) 0)\<rparr>"
  have len: "length ?bm = ?w * ?h" using wf by (simp add: wellFormed_def)
  have ac: "cwidth ?ac = ?w" "cheight ?ac = ?h" "ctx2d ?ac"
       "bitmap ?ac = replicate (?w * ?h) transparent"
    using ctx by (simp_all add: setHeight_def setWidth_def createCanvas_def)
  have inside: "p mod ?w < ?w \<and> p div ?w < ?h" if "p < ?w * ?h" for p
    using that pos by (simp add: less_mult_imp_div_less mult.commute)
  have bm': "bitmap (putImageData ?d ?ac) =
       map (\<lambda>px. if fst px > 128 then (255, 255, 255, 255) else (0, 0, 0, 0)) ?bm"
  proof (rule nth_equalityI)
    show "length (bitmap (putImageData ?d ?ac)) = length (map (\<lambda>px. if fst px > 128 then (255, 255, 255, 255) else (0, 0, 0, 0)) ?bm)"
      by (simp add: putImageData_def ac len)
  next
    fix p assume "p < length (bitmap (putImageData ?d ?ac))"
    then have p: "p < ?w * ?h" by (simp add: putImageData_def ac)
    then have pl: "p < length ?bm" by (simp add: len)
    show "bitmap (putImageData ?d ?ac) ! p =
          map (\<lambda>px. if fst px > 128 then (255, 255, 255, 255) else (0, 0, 0, 0)) ?bm ! p"
      using inside[OF p] p pl alphaLoop_pixel[OF pl, of ?w ?h]
      by (simp add: putImageData_def ac)
  qed
  have url: "toDataURL (putImageData ?d ?ac) =
      Png ?w ?h (map (\<lambda>px. if fst px > 128 then (255, 255, 255, 255) else (0, 0, 0, 0)) ?bm)"
    unfolding toDataURL_def bm' by (simp add: putImageData_def ac)
  have gid: "getImageData mc = Some \<lparr>dwidth = ?w, dheight = ?h, data = flatten ?bm\<rparr>"
    using pos by (simp add: getImageData_def)
  have cid: "createImageData ?w ?h = Some \<lparr>dwidth = ?w, dheight = ?h, data = replicate (4 * length ?bm) 0\<rparr>"
    using pos by (simp add: createImageData_def len mult.assoc)
  show ?thesis
    unfolding generateMaskImage_def Let_def mc option.case gid cid
    using ctx ac(3) url by simp
qed

lemma setupCanvas_keeps [simp]:
  "originalFile (setupCanvas img st) = originalFile st"
  "prompt (setupCanvas img st) = prompt st"
  "imageSt (setupCanvas img st) = imageSt st"
  by (auto simp: setupCanvas_def Let_def split: option.split)

lemma setupCanvas_unmounted: "canvas st = None \<Longrightarrow> setupCanvas img st = st"
  by (simp add: setupCanvas_def)

lemma upload_demo:
  "handleImageUpload demoBrowser (Some (demoFile 1000)) st =
     setupCanvas demoImage
       (st\<lparr>error := [], editedImage := None, maskImage := None,
           originalFile := Some (demoFile 1000), imageSt := Some demoImage\<rparr>)"
  by (simp add: handleImageUpload_def compressImage_def demoFile_def demoBrowser_def)

lemma uploaded_fields:
  "maskCanvas uploaded =
     Some \<lparr>cwidth = 2, cheight = 1, bitmap = [(0, 0, 0, 255), (0, 0, 0, 255)], ctx2d = True\<rparr>"
  "originalFile uploaded = Some (demoFile 1000)"
  "prompt uploaded = js ''add a pond''"
proof -
  define s1 where "s1 = handleImageUpload demoBrowser (Some (demoFile 1000)) initialState"
  define s2 where "s2 = mount demoBrowser s1"
  define s3 where "s3 = handleImageUpload demoBrowser (Some (demoFile 1000)) s2"
  have u: "uploaded = s3\<lparr>prompt := js ''add a pond''\<rparr>"
    by (simp add: uploaded_def s1_def s2_def s3_def)
  have s1: "canvas s1 = None" "imageSt s1 = Some demoImage"
    by (simp_all add: s1_def upload_demo setupCanvas_unmounted initialState_def)
  have s2: "canvas s2 = Some (createCanvas True)" "maskCanvas s2 = Some (createCanvas True)"
    using s1 by (simp_all add: s2_def mount_def demoBrowser_def)
  have ctx: "ctx2d (createCanvas True)" by (simp add: createCanvas_def)
  have "maskCanvas s3 =
      Some \<lparr>cwidth = iwidth demoImage, cheight = iheight demoImage,
            bitmap = replicate (iwidth demoImage * iheight demoImage) black, ctx2d = True\<rparr>"
    unfolding s3_def upload_demo
    by (rule setupCanvas_complete[where cv = "createCanvas True" and mc = "createCanvas True"])
       (simp_all add: s2 ctx demoImage_def)
  then show "maskCanvas uploaded =
     Some \<lparr>cwidth = 2, cheight = 1, bitmap = [(0, 0, 0, 255), (0, 0, 0, 255)], ctx2d = True\<rparr>"
    by (simp add: u demoImage_def black_def numeral_2_eq_2)
  show "originalFile uploaded = Some (demoFile 1000)"
    by (simp add: u s3_def upload_demo)
  show "prompt uploaded = js ''add a pond''"
    by (simp add: u)
qed

lemma trim_demo: "trim (js ''add a pond'') = js ''add a pond''"
  by (simp add: trim_def js_def isWhiteSpace_def)

text \<open>
  Claim C2. When the mask canvas and the contexts exist and the mask has at least one
  pixel, the alpha mask that \<^verbatim>\<open>generateMaskImage\<close> stores has the mask's size, and its
  pixel at every position is (255, 255, 255, 255) if the red channel of the mask pixel
  at that position exceeds 128, and (0, 0, 0, 0) otherwise.
\<close>

theorem generateMaskImage_alpha_rule:
  assumes "maskCanvas st = Some mc" and "ctx2d mc" and "newCanvasCtx env"
    and "wellFormed mc" and "0 < cwidth mc" and "0 < cheight mc"
  shows "maskImage (generateMaskImage env st) =
           Some (Png (cwidth mc) (cheight mc)
                   (map (\<lambda>px. if fst px > 128 then (255, 255, 255, 255) else (0, 0, 0, 0))
                      (bitmap mc)))"
  using generateMaskImage_result[OF assms] by simp

theorem generateMaskImage_alpha_rule_witness:
  "maskCanvas paintedState = Some thresholdMask \<and> ctx2d thresholdMask \<and>
   newCanvasCtx demoBrowser \<and> wellFormed thresholdMask \<and>
   0 < cwidth thresholdMask \<and> 0 < cheight thresholdMask \<and>
   maskImage (generateMaskImage demoBrowser paintedState) =
     Some (Png 3 1 [(0, 0, 0, 0), (255, 255, 255, 255), (255, 255, 255, 255)])"
proof -
  have a: "maskCanvas paintedState = Some thresholdMask"
    by (simp add: paintedState_def)
  have b: "ctx2d thresholdMask" "wellFormed thresholdMask"
      "0 < cwidth thresholdMask" "0 < cheight thresholdMask"
    by (simp_all add: thresholdMask_def wellFormed_def)
  have c: "newCanvasCtx demoBrowser"
    by (simp add: demoBrowser_def)
  have "maskImage (generateMaskImage demoBrowser paintedState) =
      Some (Png 3 1 [(0, 0, 0, 0), (255, 255, 255, 255), (255, 255, 255, 255)])"
    using generateMaskImage_alpha_rule [OF a b(1) c b(2) b(3) b(4)]
    by (simp add: thresholdMask_def)
  with a b c show ?thesis by blast
qed

text \<open>
  Claim C1, evaluated on the code. After an upload that set the canvases up and with
  the prompt "add a pond", \<^verbatim>\<open>handleSubmit\<close> issues one request whose mask is the PNG
  of the mask canvas itself, opaque black in every pixel; the alpha mask that
  \<^verbatim>\<open>generateMaskImage\<close> produces in the same state is transparent in every pixel. The
  request does not carry the exporter's alpha mask.
\<close>

theorem handleSubmit_sends_raw_mask:
  "map (\<lambda>r. bcontent (reqMask r)) (snd (handleSubmit demoBrowser uploaded)) =
     [Png 2 1 [(0, 0, 0, 255), (0, 0, 0, 255)]] \<and>
   maskImage (generateMaskImage demoBrowser uploaded) =
     Some (Png 2 1 [(0, 0, 0, 0), (0, 0, 0, 0)])"
proof
  have "js ''add a pond'' \<noteq> []" by (simp add: js_def)
  then show "map (\<lambda>r. bcontent (reqMask r)) (snd (handleSubmit demoBrowser uploaded)) =
     [Png 2 1 [(0, 0, 0, 255), (0, 0, 0, 255)]]"
    by (simp add: handleSubmit_def uploaded_fields trim_demo toBlobPng_def Let_def)
next
  have ctx: "newCanvasCtx demoBrowser" by (simp add: demoBrowser_def)
  have "generateMaskImage demoBrowser uploaded =
      uploaded\<lparr>maskImage := Some (Png 2 1
         (map (\<lambda>px. if fst px > 128 then (255, 255, 255, 255) else (0, 0, 0, 0))
            ([(0, 0, 0, 255), (0, 0, 0, 255)] :: rgba list))), error := []\<rparr>"
    using generateMaskImage_result[OF uploaded_fields(1), of demoBrowser] ctx
    by (simp add: wellFormed_def)
  then show "maskImage (generateMaskImage demoBrowser uploaded) =
     Some (Png 2 1 [(0, 0, 0, 0), (0, 0, 0, 0)])"
    by simp
qed

lemma clearMask_mask:
  assumes "originalImageData st = Some orig" "canvas st = Some cv" "maskCanvas st = Some mc"
    and "ctx2d cv" "ctx2d mc"
  shows "maskCanvas (clearMask st) = Some (fillRect black 0 0 (cwidth mc) (cheight mc) mc)"
  using assms by (simp add: clearMask_def)

lemma clearMask_unset: "originalImageData st = None \<Longrightarrow> clearMask st = st"
  by (simp add: clearMask_def)

lemma updateCanvasWithMask_unset:
  "originalImageData st = None \<Longrightarrow> updateCanvasWithMask st = st"
  by (simp add: updateCanvasWithMask_def split: option.split)

lemma blend_white_full: "blend white 255 transparent = white"
  by (simp add: blend_def blendChannel_def white_def transparent_def)

lemma blend_none: "blend col 0 px = px"
  by (cases col, cases px) (simp add: blend_def)

lemma map_zip_replicate:
  "map (\<lambda>(p, old). f p old) (zip [0..<n] (replicate n x)) = map (\<lambda>p. f p x) [0..<n]"
  by (rule nth_equalityI) simp_all

lemma first_upload_state:
  "handleImageUpload demoBrowser (Some (demoFile 1000)) initialState =
     initialState\<lparr>originalFile := Some (demoFile 1000), imageSt := Some demoImage\<rparr>"
  by (simp add: upload_demo setupCanvas_unmounted initialState_def)

text \<open>
  Once canvas set-up has completed (the original image data is cached, both canvases
  and their contexts exist) and the mask has at least one pixel, \<^verbatim>\<open>clearMask\<close>
  followed by \<^verbatim>\<open>generateMaskImage\<close> stores an alpha mask of the mask's size in
  which every pixel is (0, 0, 0, 0).
\<close>

lemma clearMask_then_generate_transparent:
  assumes "originalImageData st = Some orig" and "canvas st = Some cv"
    and "maskCanvas st = Some mc" and "ctx2d cv" and "ctx2d mc" and "newCanvasCtx env"
    and "wellFormed mc" and "0 < cwidth mc" and "0 < cheight mc"
  shows "maskImage (generateMaskImage env (clearMask st)) =
           Some (Png (cwidth mc) (cheight mc)
                   (replicate (cwidth mc * cheight mc) (0, 0, 0, 0)))"
proof -
  let ?mc' = "fillRect black 0 0 (cwidth mc) (cheight mc) mc"
  have m: "maskCanvas (clearMask st) = Some ?mc'"
    using assms by (simp add: clearMask_mask)
  have bm: "bitmap ?mc' = replicate (cwidth mc * cheight mc) black"
    by (rule fillRect_full) fact
  have wf: "wellFormed ?mc'"
    by (simp add: wellFormed_def bm)
  have "generateMaskImage env (clearMask st) =
      (clearMask st)\<lparr>maskImage := Some (Png (cwidth ?mc') (cheight ?mc')
          (map (\<lambda>px. if fst px > 128 then (255, 255, 255, 255) else (0, 0, 0, 0))
             (bitmap ?mc'))), error := []\<rparr>"
    using assms by (intro generateMaskImage_result[OF m _ _ wf]) simp_all
  then have "maskImage (generateMaskImage env (clearMask st)) =
      Some (Png (cwidth mc) (cheight mc)
          (map (\<lambda>px. if fst px > 128 then (255, 255, 255, 255) else (0, 0, 0, 0))
             (bitmap ?mc')))"
    by simp
  then show ?thesis
    unfolding bm by (simp add: black_def)
qed

text \<open>
  Only \<^verbatim>\<open>setupCanvas\<close> writes \<^verbatim>\<open>originalImageDataRef\<close>, and the first upload calls it
  while the canvases are not mounted. After a single upload nothing is cached,
  whatever the user does next short of a second upload.
\<close>

lemma step_keeps_cache:
  assumes "\<not> isUpload e"
  shows "originalImageData (step env e st) = originalImageData st"
proof (cases e)
  case (Upload f)
  with assms show ?thesis by simp
next
  case Mount
  then show ?thesis by (simp add: mount_def)
next
  case (StartDrawing x y)
  then show ?thesis
    by (auto simp: startDrawing_def drawMask_def updateCanvasWithMask_def Let_def
        split: option.split)
next
  case (ContinueDrawing x y)
  then show ?thesis
    by (auto simp: continueDrawing_def drawMask_def updateCanvasWithMask_def Let_def
        split: option.split)
next
  case StopDrawing
  then show ?thesis by (simp add: stopDrawing_def)
next
  case ClearMask
  then show ?thesis by (auto simp: clearMask_def split: option.split)
next
  case GenerateMask
  then show ?thesis by (auto simp: generateMaskImage_def Let_def split: option.split)
next
  case Submit
  then show ?thesis
    by (auto simp: handleSubmit_def handleResponse_def Let_def
        split: option.split FetchResult.split sum.split)
next
  case (BrushSizeChange n)
  then show ?thesis by simp
next
  case (PromptChange p)
  then show ?thesis by simp
qed

lemma first_upload_caches_nothing:
  assumes "\<forall>e \<in> set evs. \<not> isUpload e"
  shows "originalImageData (run env evs (handleImageUpload env upload initialState)) = None"
proof -
  have keep: "originalImageData (run env evs st) = originalImageData st" for st
    using assms by (induction evs arbitrary: st) (simp_all add: step_keeps_cache)
  have "originalImageData (handleImageUpload env upload initialState) = None"
    by (simp add: handleImageUpload_def Let_def setupCanvas_unmounted initialState_def
        split: option.split)
  with keep show ?thesis by simp
qed

text \<open>
  Claim C9, evaluated on the code. \<^verbatim>\<open>clearMask\<close> returns at once while
  \<^verbatim>\<open>originalImageDataRef\<close> is empty. After the first upload the canvases are mounted
  only once \<^verbatim>\<open>setupCanvas\<close> has returned, so nothing is cached; a stroke at (5, 5)
  with the brush of 20 then paints a disc of radius 10 on the mask, \<^verbatim>\<open>clearMask\<close>
  leaves it painted, and the alpha mask that \<^verbatim>\<open>generateMaskImage\<close> produces next is
  opaque on that disc instead of transparent everywhere.
\<close>

theorem clearMask_skipped_after_first_upload:
  "originalImageData drawnBeforeSetup = None \<and>
   maskImage (generateMaskImage demoBrowser (clearMask drawnBeforeSetup)) =
     Some (Png 300 150
             (map (\<lambda>p. if (rat_of_nat (p mod 300) + 1 / 2 - 5)\<^sup>2 +
                            (rat_of_nat (p div 300) + 1 / 2 - 5)\<^sup>2 \<le> 10\<^sup>2
                         then (255, 255, 255, 255) else (0, 0, 0, 0))
                [0..<45000]))"
proof -
  define s2 where "s2 = mount demoBrowser
      (initialState\<lparr>originalFile := Some (demoFile 1000), imageSt := Some demoImage\<rparr>)"
  have d: "drawnBeforeSetup = startDrawing demoBrowser 5 5 s2"
    by (simp add: drawnBeforeSetup_def first_upload_state s2_def)
  have s2: "maskCanvas s2 = Some (createCanvas True)" "originalImageData s2 = None"
      "brushSize s2 = 20"
    by (simp_all add: s2_def mount_def initialState_def demoBrowser_def)
  let ?mc = "fillArc demoBrowser white 5 5 (of_nat (brushSize s2) / 2) (createCanvas True)"
  let ?disc = "\<lambda>p. (rat_of_nat (p mod 300) + 1 / 2 - 5)\<^sup>2 +
                   (rat_of_nat (p div 300) + 1 / 2 - 5)\<^sup>2 \<le> 10\<^sup>2"
  have s3: "drawnBeforeSetup = s2\<lparr>isDrawing := True, maskCanvas := Some ?mc\<rparr>"
    by (simp add: d startDrawing_def drawMask_def s2(1,2) createCanvas_def
        updateCanvasWithMask_unset)
  have unset: "originalImageData drawnBeforeSetup = None"
    by (simp add: s3 s2)
  have cov: "arcCoverage demoBrowser 5 5 10 300 150 p = (if ?disc p then 255 else 0)" for p
    by (simp add: demoBrowser_def)
  have px: "blend white (arcCoverage demoBrowser 5 5 10 300 150 p) transparent =
      (if ?disc p then white else transparent)" for p
    unfolding cov by (simp add: blend_white_full blend_none)
  have "bitmap ?mc =
      map (\<lambda>(p, old). blend white (arcCoverage demoBrowser 5 5 10 300 150 p) old)
        (zip [0..<45000] (replicate 45000 transparent))"
    by (simp add: fillArc_def createCanvas_def s2(3))
  also have "\<dots> = map (\<lambda>p. blend white (arcCoverage demoBrowser 5 5 10 300 150 p) transparent)
        [0..<45000]"
    by (rule map_zip_replicate)
  finally have bm: "bitmap ?mc = map (\<lambda>p. if ?disc p then white else transparent) [0..<45000]"
    unfolding px .
  have c3: "clearMask drawnBeforeSetup = drawnBeforeSetup"
    by (rule clearMask_unset) (rule unset)
  have "generateMaskImage demoBrowser drawnBeforeSetup =
      drawnBeforeSetup\<lparr>maskImage := Some (Png (cwidth ?mc) (cheight ?mc)
          (map (\<lambda>px. if fst px > 128 then (255, 255, 255, 255) else (0, 0, 0, 0))
             (bitmap ?mc))), error := []\<rparr>"
    by (rule generateMaskImage_result[where mc = ?mc])
      (simp_all add: s3 wellFormed_def bm, simp_all add: createCanvas_def demoBrowser_def)
  then have "maskImage (generateMaskImage demoBrowser (clearMask drawnBeforeSetup)) =
      Some (Png (cwidth ?mc) (cheight ?mc)
          (map (\<lambda>px. if fst px > 128 then (255, 255, 255, 255) else (0, 0, 0, 0))
             (bitmap ?mc)))"
    by (simp add: c3)
  then have "maskImage (generateMaskImage demoBrowser (clearMask drawnBeforeSetup)) =
      Some (Png 300 150
             (map (\<lambda>p. if ?disc p then (255, 255, 255, 255) else (0, 0, 0, 0)) [0..<45000]))"
    unfolding bm by (simp add: white_def transparent_def createCanvas_def comp_def if_distrib
        cong: if_cong)
  with unset show ?thesis by blast
qed

text \<open>In particular the alpha mask is not the transparent one.\<close>

theorem clearMask_skipped_after_first_upload_witness:
  "maskImage (generateMaskImage demoBrowser (clearMask drawnBeforeSetup)) \<noteq>
     Some (Png 300 150 (replicate 45000 (0, 0, 0, 0)))"
proof
  let ?f = "\<lambda>p. if (rat_of_nat (p mod 300) + 1 / 2 - 5)\<^sup>2 +
                       (rat_of_nat (p div 300) + 1 / 2 - 5)\<^sup>2 \<le> 10\<^sup>2
                    then (255, 255, 255, 255) else (0, 0, 0, 0) :: rgba"
  assume "maskImage (generateMaskImage demoBrowser (clearMask drawnBeforeSetup)) =
     Some (Png 300 150 (replicate 45000 (0, 0, 0, 0)))"
  with clearMask_skipped_after_first_upload
  have "map ?f [0..<45000] = replicate 45000 (0, 0, 0, 0)"
    by simp
  then have "map ?f [0..<45000] ! 0 = replicate 45000 (0, 0, 0, 0) ! 0"
    by (rule arg_cong)
  then have "?f 0 = (0, 0, 0, 0)"
    by simp
  then show False
    by (simp add: power2_eq_square)
qed

section \<open>Properties of the editor's state\<close>

lemma updateCanvasWithMask_keeps [simp]:
  "maskCanvas (updateCanvasWithMask st) = maskCanvas st"
  "imageSt (updateCanvasWithMask st) = imageSt st"
  by (auto simp: updateCanvasWithMask_def Let_def split: option.split)

lemma updateCanvasWithMask_canvas:
  "canvas st = Some c \<Longrightarrow> \<exists>c'. canvas (updateCanvasWithMask st) = Some c'"
  by (auto simp: updateCanvasWithMask_def Let_def split: option.split)

lemma handleResponse_keeps [simp]:
  "maskCanvas (handleResponse res st) = maskCanvas st"
  "imageSt (handleResponse res st) = imageSt st"
  "canvas (handleResponse res st) = canvas st"
  by (auto simp: handleResponse_def split: FetchResult.split sum.split)

lemma handleSubmit_keeps [simp]:
  "maskCanvas (fst (handleSubmit env st)) = maskCanvas st"
  "imageSt (fst (handleSubmit env st)) = imageSt st"
  "canvas (fst (handleSubmit env st)) = canvas st"
  by (auto simp: handleSubmit_def Let_def split: option.split)

lemma step_keeps_dims:
  assumes "\<not> isUpload e" and "canvas st \<noteq> None" and "maskCanvas st = Some m"
  shows "canvas (step env e st) \<noteq> None \<and>
         (\<exists>m'. maskCanvas (step env e st) = Some m' \<and>
               cwidth m' = cwidth m \<and> cheight m' = cheight m) \<and>
         imageSt (step env e st) = imageSt st"
proof (cases e)
  case (Upload f)
  with assms show ?thesis by simp
next
  case Mount
  with assms show ?thesis by (auto simp: mount_def)
next
  case (StartDrawing x y)
  with assms show ?thesis
    by (auto simp: startDrawing_def drawMask_def intro!: updateCanvasWithMask_canvas)
next
  case (ContinueDrawing x y)
  with assms show ?thesis
    by (auto simp: continueDrawing_def drawMask_def intro!: updateCanvasWithMask_canvas)
next
  case StopDrawing
  with assms show ?thesis by (simp add: stopDrawing_def)
next
  case ClearMask
  with assms show ?thesis by (auto simp: clearMask_def split: option.split)
next
  case GenerateMask
  with assms show ?thesis
    by (auto simp: generateMaskImage_def Let_def split: option.split)
next
  case Submit
  with assms show ?thesis by simp
next
  case (BrushSizeChange n)
  with assms show ?thesis by simp
next
  case (PromptChange p)
  with assms show ?thesis by simp
qed

lemma run_keeps_dims:
  assumes "\<forall>e \<in> set evs. \<not> isUpload e" and "canvas st \<noteq> None" and "maskCanvas st = Some m"
  shows "\<exists>m'. maskCanvas (run env evs st) = Some m' \<and>
               cwidth m' = cwidth m \<and> cheight m' = cheight m"
    and "imageSt (run env evs st) = imageSt st"
  using assms
proof (induction evs arbitrary: st m)
  case Nil
  { case 1 then show ?case by simp }
  { case 2 then show ?case by simp }
next
  case (Cons e evs)
  { case 1
    from step_keeps_dims[of e st m env] 1 obtain m' where
      s: "canvas (step env e st) \<noteq> None" "maskCanvas (step env e st) = Some m'"
         "cwidth m' = cwidth m" "cheight m' = cheight m"
      by auto
    from Cons.IH(1)[OF _ s(1) s(2)] 1 s show ?case by auto }
  { case 2
    from step_keeps_dims[of e st m env] 2 obtain m' where
      s: "canvas (step env e st) \<noteq> None" "maskCanvas (step env e st) = Some m'"
         "imageSt (step env e st) = imageSt st"
      by auto
    from Cons.IH(2)[OF _ s(1) s(2)] 2 s show ?case by auto }
qed

text \<open>
  Claim C7. When an upload completes canvas set-up (both canvases are mounted and give
  a context, the compressed file is read and decodes to an image), the mask canvas has
  the width and height of that image, the image is the component's source image, and
  both remain so after any sequence of later events that contains no upload.
\<close>

theorem mask_dimensions_invariant:
  assumes "canvas st = Some cv" and "maskCanvas st = Some mc" and "ctx2d cv" and "ctx2d mc"
    and "readAsDataURL env (fst (compressImage env f 4000))"
    and "decode env (fst (compressImage env f 4000)) = Some img"
    and "\<forall>e \<in> set evs. \<not> isUpload e"
  shows "imageSt (run env evs (handleImageUpload env (Some f) st)) = Some img \<and>
         maskMatchesImage (run env evs (handleImageUpload env (Some f) st))"
proof -
  let ?st0 = "st\<lparr>error := [], editedImage := None, maskImage := None,
                originalFile := Some (fst (compressImage env f 4000)), imageSt := Some img\<rparr>"
  have up: "handleImageUpload env (Some f) st = setupCanvas img ?st0"
    using assms(5,6) by (simp add: handleImageUpload_def Let_def)
  have pre: "canvas ?st0 = Some cv" "maskCanvas ?st0 = Some mc"
    using assms(1,2) by simp_all
  from setupCanvas_mask_dims[OF pre assms(3,4), of img] obtain m where
    m: "maskCanvas (setupCanvas img ?st0) = Some m" "cwidth m = iwidth img"
       "cheight m = iheight img"
    and c: "canvas (setupCanvas img ?st0) \<noteq> None"
    and i: "imageSt (setupCanvas img ?st0) = Some img"
    by auto
  from run_keeps_dims[OF assms(7) c m(1), of env] m i
  show ?thesis
    unfolding up by (auto simp: maskMatchesImage_def)
qed

theorem mask_dimensions_invariant_witness:
  "canvas mounted = Some (createCanvas True) \<and> maskCanvas mounted = Some (createCanvas True) \<and>
   ctx2d (createCanvas True) \<and>
   readAsDataURL demoBrowser (fst (compressImage demoBrowser (demoFile 1000) 4000)) \<and>
   decode demoBrowser (fst (compressImage demoBrowser (demoFile 1000) 4000)) = Some demoImage \<and>
   imageSt
     (run demoBrowser [StartDrawing 5 5, ClearMask, GenerateMask, Submit]
        (handleImageUpload demoBrowser (Some (demoFile 1000)) mounted)) = Some demoImage \<and>
   maskMatchesImage
     (run demoBrowser [StartDrawing 5 5, ClearMask, GenerateMask, Submit]
        (handleImageUpload demoBrowser (Some (demoFile 1000)) mounted))"
proof -
  have m: "mounted = mount demoBrowser
      (initialState\<lparr>originalFile := Some (demoFile 1000), imageSt := Some demoImage\<rparr>)"
    by (simp add: mounted_def first_upload_state)
  have a: "canvas mounted = Some (createCanvas True)"
      "maskCanvas mounted = Some (createCanvas True)"
    unfolding m by (simp_all add: mount_def demoBrowser_def initialState_def)
  have b: "ctx2d (createCanvas True)"
    by (simp add: createCanvas_def)
  have c: "readAsDataURL demoBrowser (fst (compressImage demoBrowser (demoFile 1000) 4000))"
      "decode demoBrowser (fst (compressImage demoBrowser (demoFile 1000) 4000)) = Some demoImage"
    by (simp_all add: compressImage_def demoFile_def demoBrowser_def)
  have d: "\<forall>e \<in> set [StartDrawing 5 5, ClearMask, GenerateMask, Submit]. \<not> isUpload e"
    by simp
  from mask_dimensions_invariant [OF a b b c d] a b c show ?thesis by blast
qed

section \<open>Properties of drawing\<close>

lemma blendChannel_white:
  assumes "0 < c" "c \<le> 255" "a \<le> 255"
  shows "cd \<le> blendChannel c a 255 cd"
proof -
  let ?N = "255 * c * 255 + unat cd * a * (255 - c)"
  let ?D = "255 * c + a * (255 - c)"
  have cd: "unat cd \<le> 255" using unsigned_less[of cd, where 'a = nat] by simp
  have D: "0 < ?D" using assms by simp
  have "unat cd * ?D = unat cd * (255 * c) + unat cd * a * (255 - c)"
    by (simp add: algebra_simps)
  also have "\<dots> \<le> 255 * (255 * c) + unat cd * a * (255 - c)"
    using cd by (intro add_mono mult_right_mono) simp_all
  finally have lo: "unat cd * ?D \<le> ?N" by (simp add: algebra_simps)
  have "unat cd * a * (255 - c) \<le> 255 * (a * (255 - c))"
    using cd by (simp add: mult.assoc)
  then have hi: "?N \<le> 255 * ?D" by (simp add: algebra_simps)
  from lo D have le: "unat cd \<le> ?N div ?D"
    by (simp add: less_eq_div_iff_mult_less_eq)
  from hi D have "?N div ?D \<le> 255"
    by (metis div_le_mono nonzero_mult_div_cancel_right less_numeral_extra(3))
  then have "unat (of_nat (?N div ?D) :: byte) = ?N div ?D"
    by (simp add: unat_of_nat)
  with le show ?thesis
    by (simp add: blendChannel_def word_le_nat_alt)
qed

lemma blend_white_red: "fst px \<le> fst (blend white cov px)"
proof (cases px)
  case (fields rd gd bd ad)
  show ?thesis
  proof (cases "cov = 0")
    case True
    with fields show ?thesis by (simp add: blend_def white_def)
  next
    case False
    then have c: "0 < unat cov" by (simp add: unat_gt_0)
    have "unat cov \<le> 255" "unat ad \<le> 255"
      using unsigned_less[of cov, where 'a = nat] unsigned_less[of ad, where 'a = nat]
      by simp_all
    from blendChannel_white[OF c this, of rd] False fields show ?thesis
      by (simp add: blend_def white_def)
  qed
qed

lemma blend_white_keeps_white: "isWhite px \<Longrightarrow> isWhite (blend white cov px)"
  using blend_white_red[of px cov] by (auto simp: isWhite_def)

lemma filter_count_mono:
  assumes "\<And>i x. P x \<Longrightarrow> P (f i x)" and "length ks = length xs"
  shows "length (filter P xs) \<le> length (filter P (map (\<lambda>(i, x). f i x) (zip ks xs)))"
  using assms(2)
proof (induction ks xs rule: list_induct2)
  case Nil
  then show ?case by simp
next
  case (Cons k ks x xs)
  then show ?case using assms(1)[of x k] by auto
qed

lemma fillArc_white_count:
  "length (filter isWhite (bitmap mc))
     \<le> length (filter isWhite (bitmap (fillArc env white x y r mc)))"
  unfolding fillArc_def
  using filter_count_mono[of isWhite
      "\<lambda>p old. blend white (arcCoverage env x y r (cwidth mc) (cheight mc) p) old"
      "[0..<length (bitmap mc)]" "bitmap mc"]
  by (simp add: blend_white_keeps_white)

lemma fillArc_white_pixel:
  assumes "p < length (bitmap mc)" "isWhite (bitmap mc ! p)"
  shows "isWhite (bitmap (fillArc env white x y r mc) ! p)"
  using assms by (simp add: fillArc_def blend_white_keeps_white)

lemma length_fillArc [simp]: "length (bitmap (fillArc env col x y r mc)) = length (bitmap mc)"
  by (simp add: fillArc_def)

text \<open>
  Claim C8. A stroke point never erases: for every position and brush size, within the
  bounds of the mask or not, \<^verbatim>\<open>drawMask\<close> leaves every white pixel of the mask white
  (red channel above 128) and keeps the number of pixels, so the number of white pixels
  after the draw is at least the number before.
\<close>

theorem drawMask_never_erases:
  "whiteCount st \<le> whiteCount (drawMask env x y st) \<and>
   (\<forall>mc. maskCanvas st = Some mc \<longrightarrow>
      (\<exists>mc'. maskCanvas (drawMask env x y st) = Some mc' \<and>
             length (bitmap mc') = length (bitmap mc) \<and>
             (\<forall>p < length (bitmap mc). isWhite (bitmap mc ! p) \<longrightarrow> isWhite (bitmap mc' ! p))))"
proof (cases "maskCanvas st")
  case None
  then show ?thesis by (simp add: drawMask_def)
next
  case (Some mc)
  show ?thesis
  proof (cases "ctx2d mc")
    case False
    with Some show ?thesis by (simp add: drawMask_def)
  next
    case True
    with Some have m: "maskCanvas (drawMask env x y st) =
        Some (fillArc env white x y (of_nat (brushSize st) / 2) mc)"
      by (simp add: drawMask_def)
    show ?thesis
      unfolding whiteCount_def m Some
      using fillArc_white_count[of mc env x y "of_nat (brushSize st) / 2"]
      by (auto intro: fillArc_white_pixel)
  qed
qed

theorem drawMask_never_erases_witness:
  "maskCanvas paintedState = Some thresholdMask \<and>
   (1 :: nat) < length (bitmap thresholdMask) \<and> isWhite (bitmap thresholdMask ! 1) \<and>
   whiteCount paintedState = 2 \<and>
   2 \<le> whiteCount (drawMask demoBrowser 1 0 paintedState) \<and>
   (\<exists>mc'. maskCanvas (drawMask demoBrowser 1 0 paintedState) = Some mc' \<and>
          isWhite (bitmap mc' ! 1))"
proof -
  have a: "maskCanvas paintedState = Some thresholdMask"
    by (simp add: paintedState_def)
  have b: "(1 :: nat) < length (bitmap thresholdMask)" "isWhite (bitmap thresholdMask ! 1)"
    by (simp_all add: thresholdMask_def isWhite_def)
  have c: "whiteCount paintedState = 2"
    by (simp add: whiteCount_def a) (simp add: thresholdMask_def isWhite_def)
  note r = drawMask_never_erases [of paintedState demoBrowser 1 0]
  from r c have d: "2 \<le> whiteCount (drawMask demoBrowser 1 0 paintedState)"
    by simp
  from r a obtain mc' where
    e: "maskCanvas (drawMask demoBrowser 1 0 paintedState) = Some mc'"
       "\<forall>p < length (bitmap thresholdMask).
          isWhite (bitmap thresholdMask ! p) \<longrightarrow> isWhite (bitmap mc' ! p)"
    by blast
  from e(2) b have "isWhite (bitmap mc' ! 1)" by blast
  with a b c d e(1) show ?thesis by blast
qed

section \<open>Properties of validation and error reporting\<close>

lemma trim_empty_iff: "trim p = [] \<longleftrightarrow> list_all isWhiteSpace p"
proof
  assume "trim p = []"
  then have all: "\<forall>x \<in> set (dropWhile isWhiteSpace p). isWhiteSpace x"
    by (simp add: trim_def)
  have "dropWhile isWhiteSpace p = []"
  proof (rule ccontr)
    assume ne: "dropWhile isWhiteSpace p \<noteq> []"
    then have "\<not> isWhiteSpace (hd (dropWhile isWhiteSpace p))"
      by (rule hd_dropWhile)
    moreover have "hd (dropWhile isWhiteSpace p) \<in> set (dropWhile isWhiteSpace p)"
      using ne by (rule hd_in_set)
    ultimately show False using all by blast
  qed
  then show "list_all isWhiteSpace p"
    by (simp add: list_all_iff)
next
  assume "list_all isWhiteSpace p"
  then have d: "dropWhile isWhiteSpace p = []"
    by (simp add: list_all_iff)
  show "trim p = []"
    unfolding trim_def d by simp
qed

text \<open>
  For a prompt that is empty or consists of white space only, \<^verbatim>\<open>handleSubmit\<close> hands
  no request to \<^verbatim>\<open>fetch\<close> and sets the error
  "Please upload an image and enter a prompt". The route, given a form with such a
  prompt, never calls the external API; when the image and mask entries are files it
  answers with status 400 and an error body.
\<close>

lemma blank_prompt_client:
  assumes "list_all isWhiteSpace (prompt st)"
  shows "handleSubmit env st =
           (st\<lparr>error := ''Please upload an image and enter a prompt''\<rparr>, [])"
  using assms by (simp add: handleSubmit_def trim_empty_iff)

lemma blank_prompt_route_no_call:
  assumes "fdPrompt fd = Some (FString p)" and "list_all isWhiteSpace p"
  shows "snd (POST api (Inr fd)) = []"
proof -
  have "trim p = []" using assms(2) by (simp add: trim_empty_iff)
  with assms(1) show ?thesis
    by (simp add: POST_def Let_def split: option.split bool.split prod.split)
qed

lemma blank_prompt_route_files:
  assumes "fdPrompt fd = Some (FString p)" and "list_all isWhiteSpace p"
    and "fdImage fd = Some (FFile i)" and "fdMask fd = Some (FFile m)"
  shows "status (fst (POST api (Inr fd))) = 400 \<and> \<not> success (body (fst (POST api (Inr fd))))"
proof -
  have "trim p = []" using assms(2) by (simp add: trim_empty_iff)
  with assms(1,3,4) show ?thesis
    by (simp add: POST_def Let_def jsonError_def isValidImageFile_def sizeOf_def falsy_def
        exceeds_def split: bool.split)
qed

text \<open>
  Claim C6, evaluated on the code. The route casts the \<^verbatim>\<open>image\<close> entry to a file
  without a test. When a text field is sent as the image, together with a mask file
  and a prompt that is a single space, \<^verbatim>\<open>isValidImageFile\<close> throws before the prompt
  is examined and the \<^verbatim>\<open>catch\<close> block answers with status 500, not with a 400
  validation error; no call to the external API is made. The same form with a file as
  the image is answered with status 400.
\<close>

theorem blank_prompt_text_image_gives_500:
  "list_all isWhiteSpace (js '' '') \<and>
   fdPrompt textImageForm = Some (FString (js '' '')) \<and>
   fdImage textImageForm = Some (FString (js ''photo'')) \<and>
   POST demoServer (Inr textImageForm) =
     (jsonError 500 (''Failed to edit image: '' @ typeErrorMessage demoServer), []) \<and>
   status (fst (POST demoServer (Inr blankForm))) = 400 \<and>
   snd (POST demoServer (Inr blankForm)) = []"
proof -
  have a: "list_all isWhiteSpace (js '' '')"
    by (simp add: js_def isWhiteSpace_def)
  have b: "fdPrompt textImageForm = Some (FString (js '' ''))"
      "fdImage textImageForm = Some (FString (js ''photo''))"
      "fdMask textImageForm = Some (FFile maskUpload)"
    by (simp_all add: textImageForm_def)
  have ne: "js ''photo'' \<noteq> []" "js '' '' \<noteq> []"
    by (simp_all add: js_def)
  have msg: "\<not> includesStr (typeErrorMessage demoServer) ''Connection error''"
      "\<not> includesStr (typeErrorMessage demoServer) ''ECONNRESET''"
    by (simp_all add: demoServer_def)
  have c: "POST demoServer (Inr textImageForm) =
      (jsonError 500 (''Failed to edit image: '' @ typeErrorMessage demoServer), [])"
    by (simp add: POST_def Let_def b ne falsy_def sizeOf_def exceeds_def isValidImageFile_def
        handleThrown_def msg maskUpload_def)
  have d: "fdPrompt blankForm = Some (FString (js '' ''))"
      "fdImage blankForm = Some (FFile (demoFile 1000))" "fdMask blankForm = Some (FFile maskUpload)"
    by (simp_all add: blankForm_def)
  from blank_prompt_route_files[OF d(1) a d(2) d(3), of demoServer]
    blank_prompt_route_no_call[OF d(1) a, of demoServer] a b c
  show ?thesis by blast
qed

text \<open>
  Claim C5, as amended. The compressor does not fail on a zero-byte or undecodable
  file: it resolves with the input file unchanged and encodes nothing (a zero-byte file
  is within the budget; for an oversized file that does not decode, \<^verbatim>\<open>img.onerror\<close>
  resolves with the file). When the file does not decode, the caller reports
  "Failed to load image. Please try another file." (or "Failed to read file. Please
  try again." when the reader fails), and neither sets the image nor touches the
  canvases and the cached image data.
\<close>

theorem undecodable_upload:
  assumes "fsize f = 0 \<or> decode env f = None"
  shows "compressImage env f 4000 = (f, []) \<and>
         (decode env f = None \<longrightarrow>
            error (handleImageUpload env (Some f) st) =
              (if readAsDataURL env f
               then ''Failed to load image. Please try another file.''
               else ''Failed to read file. Please try again.'') \<and>
            imageSt (handleImageUpload env (Some f) st) = imageSt st \<and>
            canvas (handleImageUpload env (Some f) st) = canvas st \<and>
            maskCanvas (handleImageUpload env (Some f) st) = maskCanvas st \<and>
            originalImageData (handleImageUpload env (Some f) st) = originalImageData st)"
proof -
  have c: "compressImage env f 4000 = (f, [])"
    using assms by (auto simp: compressImage_def)
  then show ?thesis
    by (simp add: handleImageUpload_def Let_def)
qed

theorem undecodable_upload_witness:
  "(fsize (demoFile 0) = 0 \<or> decode demoBrowser (demoFile 0) = None) \<and>
   decode demoBrowser (demoFile 0) = None \<and>
   compressImage demoBrowser (demoFile 0) 4000 = (demoFile 0, []) \<and>
   error (handleImageUpload demoBrowser (Some (demoFile 0)) initialState) =
     ''Failed to load image. Please try another file.'' \<and>
   imageSt (handleImageUpload demoBrowser (Some (demoFile 0)) initialState) = None"
proof -
  have a: "fsize (demoFile 0) = 0 \<or> decode demoBrowser (demoFile 0) = None"
    by (simp add: demoFile_def)
  have b: "decode demoBrowser (demoFile 0) = None"
    by (simp add: demoBrowser_def demoFile_def)
  have c: "readAsDataURL demoBrowser (demoFile 0)"
    by (simp add: demoBrowser_def)
  note r = undecodable_upload [OF a, of initialState]
  from r have d: "compressImage demoBrowser (demoFile 0) 4000 = (demoFile 0, [])"
    by blast
  from r b c have e: "error (handleImageUpload demoBrowser (Some (demoFile 0)) initialState) =
     ''Failed to load image. Please try another file.''"
    "imageSt (handleImageUpload demoBrowser (Some (demoFile 0)) initialState) = imageSt initialState"
    by simp_all
  have "imageSt initialState = None"
    by (simp add: initialState_def)
  with a b d e show ?thesis by simp
qed

text \<open>
  The claim as written has the compressor fail and the upload flow halt. On a zero-byte
  file the compressor resolves with the file; the caller has stored it with
  \<^verbatim>\<open>setOriginalFile\<close> before the load error is reported, so a later submit posts
  the zero-byte file as the image.
\<close>

theorem compressor_never_fails_counterexample:
  "fsize (demoFile 0) = 0 \<and> decode demoBrowser (demoFile 0) = None \<and>
   compressImage demoBrowser (demoFile 0) 4000 = (demoFile 0, []) \<and>
   map reqImage
     (snd (handleSubmit demoBrowser (handleImageUpload demoBrowser (Some (demoFile 0)) uploaded)))
     = [demoFile 0]"
proof -
  have a: "fsize (demoFile 0) = 0" "decode demoBrowser (demoFile 0) = None"
      "readAsDataURL demoBrowser (demoFile 0)"
    by (simp_all add: demoBrowser_def demoFile_def)
  have c: "compressImage demoBrowser (demoFile 0) 4000 = (demoFile 0, [])"
    by (simp add: compressImage_def demoFile_def)
  have u: "handleImageUpload demoBrowser (Some (demoFile 0)) uploaded =
      uploaded\<lparr>error := ''Failed to load image. Please try another file.'',
                editedImage := None, maskImage := None, originalFile := Some (demoFile 0)\<rparr>"
    using a by (simp add: handleImageUpload_def Let_def c)
  have "js ''add a pond'' \<noteq> []" by (simp add: js_def)
  then have "map reqImage
     (snd (handleSubmit demoBrowser (handleImageUpload demoBrowser (Some (demoFile 0)) uploaded)))
     = [demoFile 0]"
    unfolding u
    by (simp add: handleSubmit_def uploaded_fields trim_demo toBlobPng_def Let_def)
  with a c show ?thesis by blast
qed

end
